theory Spec2Isabelle
  imports Complex_Main "HOL-Library.Sublist" "HOL-Library.Char_ord" "HOL-Library.List_Lexorder"
begin

section \<open>Values and errors\<close>

text \<open>
  The exceptions that the statements of \<^verbatim>\<open>assessments.py\<close> can raise themselves
  (indexing, dictionary and column lookup, arithmetic on Python integers, operations of
  pandas on cells and indexes) and that nilearn raises when it intersects masks.
  Failures of the file system and of the image library while reading a file are outside
  the model: reading is a total function.
\<close>

datatype error = KeyError | IndexError | ValueError | TypeError | ZeroDivisionError
  | OverflowError | InvalidIndexError | DimensionError

text \<open>
  A double-precision number, as far as the program looks at it: a finite value (taken as
  the real number it denotes), the two infinities and not-a-number.  The program only
  compares such values and divides counts, so the order of the finite values is all that
  matters, and that is the order of the reals.
\<close>

datatype fval = Fin real | PInf | NInf | NaN

fun flt :: "fval \<Rightarrow> fval \<Rightarrow> bool" where
  "flt NaN _ = False"
| "flt _ NaN = False"
| "flt (Fin a) (Fin b) = (a < b)"
| "flt (Fin a) PInf = True"
| "flt (Fin a) NInf = False"
| "flt PInf _ = False"
| "flt NInf NInf = False"
| "flt NInf _ = True"

definition fgt :: "fval \<Rightarrow> fval \<Rightarrow> bool" where
  "fgt a b = flt b a"

fun fne :: "fval \<Rightarrow> fval \<Rightarrow> bool" where
  "fne NaN _ = True"
| "fne _ NaN = True"
| "fne a b = (a \<noteq> b)"

fun fadd :: "fval \<Rightarrow> fval \<Rightarrow> fval" where
  "fadd NaN _ = NaN"
| "fadd _ NaN = NaN"
| "fadd (Fin a) (Fin b) = Fin (a + b)"
| "fadd PInf NInf = NaN"
| "fadd NInf PInf = NaN"
| "fadd PInf _ = PInf"
| "fadd _ PInf = PInf"
| "fadd NInf _ = NInf"
| "fadd _ NInf = NInf"

text \<open>Division of a float by a positive count (the mean's last step).\<close>

fun fdiv_count :: "fval \<Rightarrow> nat \<Rightarrow> fval" where
  "fdiv_count (Fin a) n = Fin (a / real n)"
| "fdiv_count x n = x"

text \<open>
  True division of two numpy integers: unlike Python integers it does not raise on a zero
  divisor, it yields not-a-number for \<open>0 / 0\<close> and an infinity otherwise.
\<close>

definition np_true_divide :: "int \<Rightarrow> int \<Rightarrow> fval" where
  "np_true_divide a b =
     (if b = 0 then (if a = 0 then NaN else if 0 < a then PInf else NInf)
      else Fin (real_of_int a / real_of_int b))"

text \<open>The module-level table \<^verbatim>\<open>qulaity_control_standards\<close>.\<close>

definition qulaity_control_standards :: "string \<Rightarrow> fval option" where
  "qulaity_control_standards =
     [''mean_fd'' \<mapsto> Fin 0.55,
      ''scrubbing_fd'' \<mapsto> Fin 0.2,
      ''proportion_kept'' \<mapsto> Fin 0.5,
      ''anatomical_dice'' \<mapsto> Fin 0.99,
      ''functional_dice'' \<mapsto> Fin 0.89]"

definition template :: string where
  "template = ''MNI152NLin2009cAsym''"

section \<open>Volumes and the Dice coefficient\<close>

text \<open>
  An image as the program reads it: the affine (its sixteen entries, row by row), the
  shape of the data array and the voxel values of \<^verbatim>\<open>get_fdata()\<close> in a fixed order.
\<close>

record volume =
  affine :: "fval list"
  shape :: "nat list"
  fdata :: "fval list"

text \<open>
  What the program hands to \<^verbatim>\<open>load_img\<close>: a file name, or an image already in memory
  (the group mask).  The file system is a function from names to volumes.
\<close>

datatype niimg = Path string | Img volume

fun load_img :: "(string \<Rightarrow> volume) \<Rightarrow> niimg \<Rightarrow> volume" where
  "load_img fs (Path p) = fs p"
| "load_img fs (Img v) = v"

text \<open>\<^verbatim>\<open>(a != b).any()\<close> on two affines.\<close>

definition any_ne :: "fval list \<Rightarrow> fval list \<Rightarrow> bool" where
  "any_ne a b = list_ex (\<lambda>(x, y). fne x y) (zip a b)"

text \<open>\<^verbatim>\<open>astype(bool)\<close>: every value other than zero is true, not-a-number included.\<close>

fun astype_bool :: "fval \<Rightarrow> bool" where
  "astype_bool (Fin x) = (x \<noteq> 0)"
| "astype_bool _ = True"

definition np_sum :: "bool list \<Rightarrow> int" where
  "np_sum bs = int (length (filter id bs))"

definition logical_and :: "bool list \<Rightarrow> bool list \<Rightarrow> bool list" where
  "logical_and xs ys = map (\<lambda>(x, y). x \<and> y) (zip xs ys)"

text \<open>
  The template as the overlap is computed on it: resampled to the processed image when
  some entry of the affines differs (\<open>resample\<close> stands for nilearn's
  \<^verbatim>\<open>resample_to_img\<close> with nearest-neighbour interpolation), as it is otherwise.
\<close>

definition template_on_grid ::
  "(volume \<Rightarrow> volume \<Rightarrow> volume) \<Rightarrow> volume \<Rightarrow> volume \<Rightarrow> volume" where
  "template_on_grid resample template_mask processed_img =
     (if any_ne (affine template_mask) (affine processed_img)
      then resample template_mask processed_img else template_mask)"

text \<open>
  The arrays are kept flat, row by row (the last axis runs fastest): the stride of an
  axis is the product of the lengths of the axes after it.
\<close>

fun strides :: "nat list \<Rightarrow> nat list" where
  "strides [] = []"
| "strides (d # ds) = prod_list ds # strides ds"

text \<open>
  numpy's broadcasting of two shapes: they are aligned at the last axis, and two lengths
  go together when they are equal or one of them is 1.  The function works on the
  reversed shapes.
\<close>

fun broadcast_rev :: "nat list \<Rightarrow> nat list \<Rightarrow> nat list option" where
  "broadcast_rev [] ys = Some ys"
| "broadcast_rev (x # xs) [] = Some (x # xs)"
| "broadcast_rev (x # xs) (y # ys) =
     (if x = y \<or> y = 1 then map_option ((#) x) (broadcast_rev xs ys)
      else if x = 1 then map_option ((#) y) (broadcast_rev xs ys)
      else None)"

definition broadcast_shapes :: "nat list \<Rightarrow> nat list \<Rightarrow> nat list option" where
  "broadcast_shapes s t = map_option rev (broadcast_rev (rev s) (rev t))"

text \<open>
  The element of a flat boolean array of shape \<open>s\<close> that the broadcast array of shape
  \<open>r\<close> has at position \<open>i\<close>: along an axis of length 1 (or a missing leading axis) the
  array is repeated.
\<close>

definition source_index :: "nat list \<Rightarrow> nat list \<Rightarrow> nat \<Rightarrow> nat" where
  "source_index s r i =
     (let padded = replicate (length r - length s) 1 @ s
      in sum_list (map (\<lambda>(d, sd, dr, sr). if d = 1 then 0 else ((i div sr) mod dr) * sd)
                     (zip padded (zip (strides padded) (zip r (strides r))))))"

definition broadcast_to :: "nat list \<Rightarrow> bool list \<Rightarrow> nat list \<Rightarrow> bool list" where
  "broadcast_to s xs r =
     map (\<lambda>i. source_index s r i < length xs \<and> xs ! source_index s r i) [0..<prod_list r]"

text \<open>
  \<^verbatim>\<open>np.logical_and\<close> on two arrays with their shapes: element by element when the
  shapes agree, on the broadcast arrays otherwise, and an error when the shapes cannot
  be broadcast.
\<close>

definition logical_and_shaped ::
  "nat list \<Rightarrow> bool list \<Rightarrow> nat list \<Rightarrow> bool list \<Rightarrow> bool list option" where
  "logical_and_shaped s xs t ys =
     (if s = t then Some (logical_and xs ys)
      else (case broadcast_shapes s t of None \<Rightarrow> None
            | Some r \<Rightarrow> Some (logical_and (broadcast_to s xs r) (broadcast_to t ys r))))"

text \<open>\<^verbatim>\<open>_dice_coefficient\<close>.\<close>

definition dice_coefficient ::
  "(string \<Rightarrow> volume) \<Rightarrow> (volume \<Rightarrow> volume \<Rightarrow> volume) \<Rightarrow> niimg \<Rightarrow> niimg \<Rightarrow> error + fval" where
  "dice_coefficient fs resample processed template_mask =
     (let processed_img = load_img fs processed;
          template_mask = template_on_grid resample (load_img fs template_mask) processed_img;
          p = map astype_bool (fdata processed_img);
          t = map astype_bool (fdata template_mask)
      in case logical_and_shaped (shape processed_img) p (shape template_mask) t of
           None \<Rightarrow> Inl ValueError
         | Some both \<Rightarrow>
             (let intersection = np_sum both;
                  total_elements = np_sum p + np_sum t
              in Inr (np_true_divide (2 * intersection) total_elements)))"

section \<open>Strings\<close>

text \<open>
  \<^verbatim>\<open>str.split(sep)\<close> for a separator that is not empty (every separator of the program
  is a literal): the pieces between the occurrences of \<open>sep\<close>, found from the left
  without overlap.  An empty separator, on which Python raises, never splits here.
\<close>

fun split_from :: "string \<Rightarrow> string \<Rightarrow> string \<Rightarrow> string list" where
  "split_from sep cur [] = [cur]"
| "split_from sep cur (c # cs) =
     (if sep \<noteq> [] \<and> prefix sep (c # cs)
      then cur # split_from sep [] (drop (length sep - 1) cs)
      else split_from sep (cur @ [c]) cs)"

definition py_split :: "string \<Rightarrow> string \<Rightarrow> string list" where
  "py_split sep s = split_from sep [] s"

text \<open>
  \<^verbatim>\<open>str.replace(old, new)\<close> for a pattern that is not empty: every occurrence found
  from the left without overlap is replaced.  The pattern is taken literally, as pandas
  does by default since version 2.0; for entity keys made of letters and digits the
  older default (a regular expression) finds the same occurrences.
\<close>

fun py_replace :: "string \<Rightarrow> string \<Rightarrow> string \<Rightarrow> string" where
  "py_replace old new [] = []"
| "py_replace old new (c # cs) =
     (if old \<noteq> [] \<and> prefix old (c # cs)
      then new @ py_replace old new (drop (length old - 1) cs)
      else c # py_replace old new cs)"

text \<open>\<^verbatim>\<open>sep.join(xs)\<close>.\<close>

fun py_join :: "string \<Rightarrow> string list \<Rightarrow> string" where
  "py_join sep [] = []"
| "py_join sep [x] = x"
| "py_join sep (x # y # ys) = x @ sep @ py_join sep (y # ys)"

text \<open>\<^verbatim>\<open>Path(p).name\<close> of a file path: the part after the last slash.\<close>

definition path_name :: "string \<Rightarrow> string" where
  "path_name p = last (py_split ''/'' p)"

section \<open>Dictionaries and data frames\<close>

text \<open>
  A Python dictionary with string keys, in insertion order: assigning to a key that is
  present keeps its place, a new key goes to the end.
\<close>

fun dict_update :: "'k \<Rightarrow> 'v \<Rightarrow> ('k \<times> 'v) list \<Rightarrow> ('k \<times> 'v) list" where
  "dict_update k v [] = [(k, v)]"
| "dict_update k v (p # ps) = (if fst p = k then (k, v) # ps else p # dict_update k v ps)"

text \<open>
  A cell of a data frame: a float, a boolean, a string, the missing value of a column
  of objects, or a series (what a lookup by a repeated row label puts into a cell).
\<close>

datatype cell = CNum fval | CBool bool | CStr string | CNone | CSeries "cell list"

text \<open>
  A pandas data frame with string row labels: the name of the index, the row labels and
  the columns in order, each with one cell per row.  Column labels are looked up from
  the left; the tables of this program never repeat a column label.
\<close>

record frame =
  index_name :: "string option"
  index :: "string list"
  columns :: "(string \<times> cell list) list"

text \<open>\<^verbatim>\<open>frame[name]\<close>.\<close>

definition get_column :: "frame \<Rightarrow> string \<Rightarrow> error + cell list" where
  "get_column f name = (case map_of (columns f) name of None \<Rightarrow> Inl KeyError | Some c \<Rightarrow> Inr c)"

text \<open>\<^verbatim>\<open>frame[name] = values\<close>, on the frame itself.\<close>

definition set_column :: "frame \<Rightarrow> string \<Rightarrow> cell list \<Rightarrow> frame" where
  "set_column f name vals = f\<lparr>columns := dict_update name vals (columns f)\<rparr>"

text \<open>
  \<^verbatim>\<open>frame.loc[row, col]\<close>: the cell of the row with that label; for a label that
  occurs more than once, the series of the cells of all its rows.
\<close>

definition loc :: "frame \<Rightarrow> string \<Rightarrow> string \<Rightarrow> error + cell" where
  "loc f row col =
     (case get_column f col of Inl e \<Rightarrow> Inl e
      | Inr c \<Rightarrow>
          (case map snd (filter (\<lambda>p. fst p = row) (zip (index f) c)) of
             [] \<Rightarrow> Inl KeyError
           | [v] \<Rightarrow> Inr v
           | v # w # vs \<Rightarrow> Inr (CSeries (v # w # vs))))"

text \<open>
  The number a cell stands for in a comparison with a float, if any: a missing value
  compares false both ways, as not-a-number does, and a string cannot be compared.
\<close>

fun cell_num :: "cell \<Rightarrow> fval option" where
  "cell_num (CNum x) = Some x"
| "cell_num (CBool b) = Some (Fin (if b then 1 else 0))"
| "cell_num (CStr s) = None"
| "cell_num CNone = Some NaN"
| "cell_num (CSeries s) = None"

text \<open>\<^verbatim>\<open>series < t\<close> and \<^verbatim>\<open>series > t\<close>, cell by cell.\<close>

definition series_lt :: "cell list \<Rightarrow> fval \<Rightarrow> error + bool list" where
  "series_lt col t =
     (case those (map cell_num col) of None \<Rightarrow> Inl TypeError
      | Some xs \<Rightarrow> Inr (map (\<lambda>x. flt x t) xs))"

definition series_gt :: "cell list \<Rightarrow> fval \<Rightarrow> error + bool list" where
  "series_gt col t =
     (case those (map cell_num col) of None \<Rightarrow> Inl TypeError
      | Some xs \<Rightarrow> Inr (map (\<lambda>x. fgt x t) xs))"

text \<open>The product of two boolean series.\<close>

definition series_mul :: "bool list \<Rightarrow> bool list \<Rightarrow> bool list" where
  "series_mul xs ys = map (\<lambda>(x, y). x \<and> y) (zip xs ys)"

text \<open>
  The product of a boolean with a cell of a column of objects: the conjunction for a
  boolean, the float times 0 or 1 for a float, a series again for a series, and no
  product for a string or a missing value.
\<close>

fun cell_mul :: "bool \<Rightarrow> cell \<Rightarrow> error + cell" where
  "cell_mul b (CBool c) = Inr (CBool (b \<and> c))"
| "cell_mul b (CNum (Fin x)) = Inr (CNum (Fin (if b then x else 0)))"
| "cell_mul b (CNum x) = Inr (CNum (if b then x else NaN))"
| "cell_mul b (CStr s) = Inl TypeError"
| "cell_mul b CNone = Inl TypeError"
| "cell_mul b (CSeries s) = Inr (CSeries s)"

fun cells_mul :: "cell list \<Rightarrow> cell list \<Rightarrow> error + cell list" where
  "cells_mul (CBool b # xs) (y # ys) =
     (case cell_mul b y of Inl e \<Rightarrow> Inl e
      | Inr z \<Rightarrow> (case cells_mul xs ys of Inl e \<Rightarrow> Inl e | Inr zs \<Rightarrow> Inr (z # zs)))"
| "cells_mul (x # xs) (y # ys) = Inl TypeError"
| "cells_mul _ _ = Inr []"

text \<open>
  What \<^verbatim>\<open>int(series.sum())\<close> raises, if anything: a series among the cells cannot be
  converted, nor can a sum that is not a number or not finite.
\<close>

fun cell_value :: "cell \<Rightarrow> fval" where
  "cell_value (CNum x) = x"
| "cell_value (CBool b) = Fin (if b then 1 else 0)"
| "cell_value c = Fin 0"

fun is_series :: "cell \<Rightarrow> bool" where
  "is_series (CSeries s) = True"
| "is_series c = False"

definition int_of_sum :: "cell list \<Rightarrow> error option" where
  "int_of_sum col =
     (if list_ex is_series col then Some TypeError
      else (case foldr fadd (map cell_value col) (Fin 0) of
              Fin r \<Rightarrow> None
            | NaN \<Rightarrow> Some ValueError
            | PInf \<Rightarrow> Some OverflowError
            | NInf \<Rightarrow> Some OverflowError))"

text \<open>
  \<^verbatim>\<open>pd.DataFrame(d).T\<close> for a dictionary of dictionaries of floats: one row per outer
  key, one column per inner key (in the order of first appearance), not-a-number where
  a row lacks the key.
\<close>

definition inner_keys :: "(string \<times> (string \<times> fval) list) list \<Rightarrow> string list" where
  "inner_keys d = rev (remdups (rev (concat (map (\<lambda>(k, row). map fst row) d))))"

definition dataframe_T :: "(string \<times> (string \<times> fval) list) list \<Rightarrow> frame" where
  "dataframe_T d =
     \<lparr>index_name = None, index = map fst d,
      columns = map (\<lambda>c. (c, map (\<lambda>(k, row). case map_of row c of None \<Rightarrow> CNum NaN
                                               | Some v \<Rightarrow> CNum v) d)) (inner_keys d)\<rparr>"

text \<open>\<^verbatim>\<open>frame.sort_index()\<close>: a new frame with the rows in ascending order of their labels.\<close>

definition sort_index :: "frame \<Rightarrow> frame" where
  "sort_index f =
     (let order = sort_key (\<lambda>i. index f ! i) [0..<length (index f)]
      in f\<lparr>index := map (\<lambda>i. index f ! i) order,
           columns := map (\<lambda>(c, vals). (c, map (\<lambda>i. vals ! i) order)) (columns f)\<rparr>)"

text \<open>
  \<^verbatim>\<open>pd.concat((a, b), axis=1)\<close>: with equal indexes the columns of \<open>b\<close> follow those
  of \<open>a\<close>.  In this program the indexes differ only when a row label is repeated, and
  pandas refuses to align such an index.
\<close>

definition concat_columns :: "frame \<Rightarrow> frame \<Rightarrow> error + frame" where
  "concat_columns a b =
     (if index a = index b then Inr (a\<lparr>columns := columns a @ columns b\<rparr>)
      else Inl InvalidIndexError)"

text \<open>A threshold of the table of standards.\<close>

definition standard :: "string \<Rightarrow> error + fval" where
  "standard k = (case qulaity_control_standards k of None \<Rightarrow> Inl KeyError | Some v \<Rightarrow> Inr v)"

section \<open>The dataset accessor\<close>

text \<open>
  A query of the BIDS layout: the entity filters by name, each with the values it
  admits.  The layout itself is a function from queries to the list of matching file
  names (\<^verbatim>\<open>return_type="file"\<close>).
\<close>

type_synonym bids_filter = "(string \<times> string list) list"

definition func_filter :: "string list \<Rightarrow> string list \<Rightarrow> bids_filter" where
  "func_filter subjects task =
     [(''subject'', subjects), (''task'', task), (''space'', [template]),
      (''desc'', [''brain'']), (''suffix'', [''mask'']), (''extension'', [''nii.gz'']),
      (''datatype'', [''func''])]"

definition confounds_filter :: "string list \<Rightarrow> string list \<Rightarrow> bids_filter" where
  "confounds_filter subjects task =
     [(''subject'', subjects), (''task'', task), (''desc'', [''confounds'']),
      (''extension'', [''tsv''])]"

definition anat_filter :: "string \<Rightarrow> bids_filter" where
  "anat_filter sub =
     [(''subject'', [sub]), (''space'', [template]), (''desc'', [''brain'']),
      (''suffix'', [''mask'']), (''extension'', [''nii.gz'']), (''datatype'', [''anat''])]"

section \<open>Reference masks\<close>

subsection \<open>The group mask of nilearn\<close>

text \<open>
  The program calls \<^verbatim>\<open>nilearn.masking.intersect_masks(func_masks, threshold=0.5)\<close> and
  leaves the third argument at its default, \<^verbatim>\<open>connected=True\<close>.  What that call computes
  decides what the functional reference is, so the function is written out here.

  \<^verbatim>\<open>load_mask_img(mask, allow_empty=True)\<close>: the image has three dimensions (a fourth
  of length one is dropped), values that are not finite count as 0, and the data have
  one value, or two of which one is 0; the mask is true where the value is not 0.
\<close>

fun finite_or_zero :: "fval \<Rightarrow> real" where
  "finite_or_zero (Fin x) = x"
| "finite_or_zero _ = 0"

definition shape_3d :: "volume \<Rightarrow> nat list option" where
  "shape_3d v =
     (if length (shape v) = 3 then Some (shape v)
      else if length (shape v) = 4 \<and> last (shape v) = 1 then Some (butlast (shape v))
      else None)"

definition mask_of :: "volume \<Rightarrow> bool list" where
  "mask_of v = map (\<lambda>x. finite_or_zero x \<noteq> 0) (fdata v)"

definition load_mask_img :: "volume \<Rightarrow> error + bool list" where
  "load_mask_img v =
     (case shape_3d v of None \<Rightarrow> Inl DimensionError
      | Some s \<Rightarrow>
          (let values = remdups (map finite_or_zero (fdata v))
           in if length values = 1 then Inr (mask_of v)
              else if length values = 2 \<and> 0 \<in> set values then Inr (mask_of v)
              else Inl ValueError))"

text \<open>The loop over the masks: each has the affine and the shape of the first.\<close>

fun mask_loop ::
  "(string \<Rightarrow> volume) \<Rightarrow> fval list \<Rightarrow> nat list option \<Rightarrow> string list \<Rightarrow> error + bool list list" where
  "mask_loop fs ref_affine ref_shape [] = Inr []"
| "mask_loop fs ref_affine ref_shape (this_mask # rest) =
     (case load_mask_img (fs this_mask) of Inl e \<Rightarrow> Inl e
      | Inr m \<Rightarrow>
          if any_ne (affine (fs this_mask)) ref_affine then Inl ValueError
          else if shape_3d (fs this_mask) \<noteq> ref_shape then Inl ValueError
          else (case mask_loop fs ref_affine ref_shape rest of Inl e \<Rightarrow> Inl e
                | Inr ms \<Rightarrow> Inr (m # ms)))"

text \<open>
  The vote: a voxel is kept when the number of masks in which it is set is greater than
  the threshold times the number of masks.
\<close>

definition majority_vote :: "bool list list \<Rightarrow> real \<Rightarrow> bool list" where
  "majority_vote masks threshold =
     (case masks of [] \<Rightarrow> []
      | first # others \<Rightarrow>
          map (\<lambda>i. threshold * real (length masks)
                      < real (length (filter (\<lambda>m. i < length m \<and> m ! i) masks)))
            [0..<length first])"

text \<open>
  \<^verbatim>\<open>largest_connected_component\<close>.  The voxels of an array of shape \<open>shp\<close> are numbered
  row by row (the last axis runs fastest); two voxels are neighbours when they differ by
  one step along one axis.  A component grows from its first voxel by adding the set
  neighbours of its voxels, at most as many times as there are voxels; components are
  found in the order of their first voxels, and of several largest ones the first is
  taken.
\<close>

definition neighbours :: "nat list \<Rightarrow> nat \<Rightarrow> nat list" where
  "neighbours shp i =
     concat (map (\<lambda>(d, s). (if 0 < (i div s) mod d then [i - s] else [])
                            @ (if (i div s) mod d + 1 < d then [i + s] else []))
               (zip shp (strides shp)))"

fun grow :: "nat \<Rightarrow> nat list \<Rightarrow> bool list \<Rightarrow> nat list \<Rightarrow> nat list" where
  "grow 0 shp grp region = region"
| "grow (Suc k) shp grp region =
     (let new = remdups (filter (\<lambda>j. j < length grp \<and> grp ! j \<and> j \<notin> set region)
                           (concat (map (neighbours shp) region)))
      in if new = [] then region else grow k shp grp (region @ new))"

fun label_from :: "nat list \<Rightarrow> bool list \<Rightarrow> nat list list \<Rightarrow> nat list \<Rightarrow> nat list list" where
  "label_from shp grp found [] = found"
| "label_from shp grp found (i # rest) =
     (if grp ! i \<and> i \<notin> set (concat found)
      then label_from shp grp (found @ [grow (length grp) shp grp [i]]) rest
      else label_from shp grp found rest)"

fun largest :: "nat list list \<Rightarrow> nat list" where
  "largest [] = []"
| "largest (c # cs) = (if length (largest cs) \<le> length c then c else largest cs)"

definition largest_connected_component :: "nat list \<Rightarrow> bool list \<Rightarrow> bool list" where
  "largest_connected_component shp grp =
     (let best = largest (label_from shp grp [] [0..<length grp])
      in map (\<lambda>i. i \<in> set best) [0..<length grp])"

text \<open>A boolean array as 8-bit integers.\<close>

definition as_int8 :: "bool list \<Rightarrow> fval list" where
  "as_int8 bs = map (\<lambda>b. Fin (if b then 1 else 0)) bs"

text \<open>
  \<^verbatim>\<open>intersect_masks(mask_imgs, threshold, connected)\<close>, with \<open>conn\<close> for the third
  argument: the result has the affine and the shape of the first mask and the values 0
  and 1.
\<close>

definition intersect_masks ::
  "(string \<Rightarrow> volume) \<Rightarrow> string list \<Rightarrow> real \<Rightarrow> bool \<Rightarrow> error + volume" where
  "intersect_masks fs mask_imgs threshold conn =
     (case mask_imgs of [] \<Rightarrow> Inl ValueError
      | first # others \<Rightarrow>
         (case load_mask_img (fs first) of Inl e \<Rightarrow> Inl e
          | Inr first_mask \<Rightarrow>
             if threshold > 1 \<or> threshold < 0 then Inl ValueError
             else (case mask_loop fs (affine (fs first)) (shape_3d (fs first)) mask_imgs of
                     Inl e \<Rightarrow> Inl e
                   | Inr masks \<Rightarrow>
                      (let ref_shape = (case shape_3d (fs first) of None \<Rightarrow> [] | Some s \<Rightarrow> s);
                           grp_mask = majority_vote masks (min threshold (1 - 1 / 10 ^ 7));
                           grp_mask = (if list_ex id grp_mask \<and> conn
                                       then largest_connected_component ref_shape grp_mask
                                       else grp_mask)
                       in Inr \<lparr>affine = affine (fs first), shape = ref_shape,
                               fdata = as_int8 grp_mask\<rparr>))))"

subsection \<open>The reference masks\<close>

text \<open>
  \<^verbatim>\<open>get_reference_mask\<close>.  \<open>template_mask\<close> is what the template repository returns for
  the brain mask of the template at resolution 01, \<open>layout\<close> the dataset accessor and
  \<open>fs\<close> the file system from which nilearn reads the masks.
\<close>

definition get_reference_mask ::
  "niimg \<Rightarrow> (bids_filter \<Rightarrow> string list) \<Rightarrow> (string \<Rightarrow> volume) \<Rightarrow>
   string \<Rightarrow> string list \<Rightarrow> string list \<Rightarrow> error + (string \<rightharpoonup> niimg)" where
  "get_reference_mask template_mask layout fs analysis_level subjects task =
     (let reference_masks = [''anat'' \<mapsto> template_mask]
      in if analysis_level = ''group'' \<and> length subjects > 1
         then (let func_masks = layout (func_filter subjects task)
               in case intersect_masks fs func_masks 0.5 True of
                    Inl e \<Rightarrow> Inl e
                  | Inr m \<Rightarrow> Inr (reference_masks(''func'' \<mapsto> Img m)))
         else Inr (reference_masks(''func'' \<mapsto> template_mask)))"

section \<open>Functional metrics\<close>

text \<open>
  \<^verbatim>\<open>np.nanmean\<close>: the mean of the entries that are numbers, not-a-number if there is
  none.  The sum and the quotient are exact here; numpy rounds them to doubles, so the
  value of the program can differ from this one in the last place.
\<close>

definition nanmean :: "fval list \<Rightarrow> fval" where
  "nanmean xs =
     (let ys = filter (\<lambda>x. x \<noteq> NaN) xs
      in if ys = [] then NaN else fdiv_count (foldr fadd ys (Fin 0)) (length ys))"

text \<open>\<^verbatim>\<open>xs[mask]\<close> for a boolean mask.\<close>

definition boolean_index :: "'a list \<Rightarrow> bool list \<Rightarrow> 'a list" where
  "boolean_index xs keep = map fst (filter snd (zip xs keep))"

text \<open>
  \<^verbatim>\<open>sum(kept) / n\<close>: Python's \<^verbatim>\<open>sum\<close> of an empty array is the Python integer 0, and
  dividing it by the Python integer 0 raises; otherwise the count is a numpy integer.
\<close>

definition sum_div :: "bool list \<Rightarrow> nat \<Rightarrow> error + fval" where
  "sum_div kept n =
     (if kept = [] then (if n = 0 then Inl ZeroDivisionError else Inr (Fin 0))
      else Inr (np_true_divide (np_sum kept) (int n)))"

text \<open>\<^verbatim>\<open>framewise_displacements < t\<close>: the volumes that are kept.\<close>

definition kept_volumes :: "fval \<Rightarrow> fval list \<Rightarrow> bool list" where
  "kept_volumes t framewise_displacements = map (\<lambda>x. flt x t) framewise_displacements"

text \<open>The body of the loop over the confound files, up to the row that it stores.\<close>

definition motion_metrics :: "fval list \<Rightarrow> error + (string \<times> fval) list" where
  "motion_metrics framewise_displacements =
     (let timeseries_length = length framewise_displacements;
          fds_mean_raw = nanmean framewise_displacements
      in case standard ''scrubbing_fd'' of Inl e \<Rightarrow> Inl e
         | Inr scrubbing_fd \<Rightarrow>
            (let kept = kept_volumes scrubbing_fd framewise_displacements;
                 fds_mean_scrub = nanmean (boolean_index framewise_displacements kept)
             in case sum_div kept timeseries_length of Inl e \<Rightarrow> Inl e
                | Inr proportion_kept \<Rightarrow>
                    Inr [(''mean_fd_raw'', fds_mean_raw),
                         (''mean_fd_scrubbed'', fds_mean_scrub),
                         (''proportion_kept'', proportion_kept)]))"

text \<open>
  The loop over the confound files.  \<open>read_csv\<close> gives the numeric columns of a
  tab-separated file by name.
\<close>

fun confound_loop ::
  "(string \<Rightarrow> string \<rightharpoonup> fval list) \<Rightarrow> (string \<times> (string \<times> fval) list) list \<Rightarrow> string list \<Rightarrow>
   error + (string \<times> (string \<times> fval) list) list" where
  "confound_loop read_csv metrics [] = Inr metrics"
| "confound_loop read_csv metrics (confound_file # rest) =
     (case read_csv confound_file ''framewise_displacement'' of None \<Rightarrow> Inl KeyError
      | Some framewise_displacements \<Rightarrow>
         (case motion_metrics framewise_displacements of Inl e \<Rightarrow> Inl e
          | Inr row \<Rightarrow>
             (let identifier = hd (py_split ''_desc-confounds'' (path_name confound_file))
              in confound_loop read_csv (dict_update identifier row metrics) rest)))"

text \<open>The loop over the functional masks.\<close>

fun func_loop ::
  "(string \<Rightarrow> volume) \<Rightarrow> (volume \<Rightarrow> volume \<Rightarrow> volume) \<Rightarrow> (string \<rightharpoonup> niimg) \<Rightarrow>
   (string \<times> (string \<times> fval) list) list \<Rightarrow> string list \<Rightarrow>
   error + (string \<times> (string \<times> fval) list) list" where
  "func_loop fs resample reference_masks metrics [] = Inr metrics"
| "func_loop fs resample reference_masks metrics (func_file # rest) =
     (let identifier = hd (py_split (''_space-'' @ template) (path_name func_file))
      in case reference_masks ''func'' of None \<Rightarrow> Inl KeyError
         | Some reference \<Rightarrow>
            (case dice_coefficient fs resample (Path func_file) reference of Inl e \<Rightarrow> Inl e
             | Inr functional_dice \<Rightarrow>
                func_loop fs resample reference_masks
                  (case map_of metrics identifier of
                     Some row \<Rightarrow>
                       dict_update identifier
                         (dict_update ''functional_dice'' functional_dice row) metrics
                   | None \<Rightarrow>
                       dict_update identifier [(''functional_dice'', functional_dice)] metrics)
                  rest))"

definition calculate_functional_metrics ::
  "(bids_filter \<Rightarrow> string list) \<Rightarrow> (string \<Rightarrow> string \<rightharpoonup> fval list) \<Rightarrow> (string \<Rightarrow> volume) \<Rightarrow>
   (volume \<Rightarrow> volume \<Rightarrow> volume) \<Rightarrow> string list \<Rightarrow> string list \<Rightarrow> (string \<rightharpoonup> niimg) \<Rightarrow>
   error + frame" where
  "calculate_functional_metrics layout read_csv fs resample subjects task reference_masks =
     (let confounds = layout (confounds_filter subjects task)
      in case confound_loop read_csv [] confounds of Inl e \<Rightarrow> Inl e
         | Inr metrics \<Rightarrow>
            (let func_images = layout (func_filter subjects task)
             in case func_loop fs resample reference_masks metrics func_images of
                  Inl e \<Rightarrow> Inl e
                | Inr metrics \<Rightarrow> Inr (sort_index (dataframe_T metrics))))"

section \<open>Anatomical metrics\<close>

text \<open>The loop over the subjects.\<close>

fun anat_loop ::
  "(bids_filter \<Rightarrow> string list) \<Rightarrow> (string \<Rightarrow> volume) \<Rightarrow> (volume \<Rightarrow> volume \<Rightarrow> volume) \<Rightarrow>
   (string \<rightharpoonup> niimg) \<Rightarrow> (string \<times> (string \<times> fval) list) list \<Rightarrow> string list \<Rightarrow>
   error + (string \<times> (string \<times> fval) list) list" where
  "anat_loop layout fs resample reference_masks metrics [] = Inr metrics"
| "anat_loop layout fs resample reference_masks metrics (sub # rest) =
     (case layout (anat_filter sub) of [] \<Rightarrow> Inl IndexError
      | first # others \<Rightarrow>
         (case reference_masks ''anat'' of None \<Rightarrow> Inl KeyError
          | Some reference \<Rightarrow>
             (case dice_coefficient fs resample (Path first) reference of Inl e \<Rightarrow> Inl e
              | Inr anat_dice \<Rightarrow>
                 anat_loop layout fs resample reference_masks
                   (dict_update sub [(''anatomical_dice'', anat_dice)] metrics) rest)))"

definition calculate_anat_metrics ::
  "(bids_filter \<Rightarrow> string list) \<Rightarrow> (string \<Rightarrow> volume) \<Rightarrow> (volume \<Rightarrow> volume \<Rightarrow> volume) \<Rightarrow>
   string list \<Rightarrow> (string \<rightharpoonup> niimg) \<Rightarrow> error + frame" where
  "calculate_anat_metrics layout fs resample subjects reference_masks =
     (case anat_loop layout fs resample reference_masks [] subjects of Inl e \<Rightarrow> Inl e
      | Inr d \<Rightarrow>
         (let metrics = dataframe_T d
          in case get_column metrics ''anatomical_dice'' of Inl e \<Rightarrow> Inl e
             | Inr col \<Rightarrow>
                (case standard ''anatomical_dice'' of Inl e \<Rightarrow> Inl e
                 | Inr t \<Rightarrow>
                    (case series_gt col t of Inl e \<Rightarrow> Inl e
                     | Inr pass \<Rightarrow>
                        Inr (sort_index (set_column metrics ''pass_qc'' (map CBool pass)))))))"

section \<open>Quality assessment\<close>

text \<open>
  The three comparisons of \<^verbatim>\<open>quality_accessments\<close> and their product, the column that
  is assigned to \<^verbatim>\<open>pass_func_qc\<close>.
\<close>

definition pass_func_qc :: "frame \<Rightarrow> error + cell list" where
  "pass_func_qc functional_metrics =
     (case get_column functional_metrics ''mean_fd_raw'' of Inl e \<Rightarrow> Inl e
      | Inr fd \<Rightarrow>
     (case standard ''mean_fd'' of Inl e \<Rightarrow> Inl e
      | Inr t_fd \<Rightarrow>
     (case series_lt fd t_fd of Inl e \<Rightarrow> Inl e
      | Inr keep_fd \<Rightarrow>
     (case get_column functional_metrics ''proportion_kept'' of Inl e \<Rightarrow> Inl e
      | Inr prop \<Rightarrow>
     (case standard ''proportion_kept'' of Inl e \<Rightarrow> Inl e
      | Inr t_prop \<Rightarrow>
     (case series_gt prop t_prop of Inl e \<Rightarrow> Inl e
      | Inr keep_proportion \<Rightarrow>
     (case get_column functional_metrics ''functional_dice'' of Inl e \<Rightarrow> Inl e
      | Inr dice \<Rightarrow>
     (case standard ''functional_dice'' of Inl e \<Rightarrow> Inl e
      | Inr t_dice \<Rightarrow>
     (case series_gt dice t_dice of Inl e \<Rightarrow> Inl e
      | Inr keep_func \<Rightarrow>
          Inr (map CBool (series_mul (series_mul keep_fd keep_proportion) keep_func)))))))))))"

text \<open>The subject of an identifier: what follows the last \<^verbatim>\<open>sub-\<close>, up to the next underscore.\<close>

definition subject_of :: "string \<Rightarrow> string" where
  "subject_of ident = hd (py_split ''_'' (last (py_split ''sub-'' ident)))"

text \<open>The loop over the rows of the functional table that looks the subject up.\<close>

fun pass_anat_qc_loop ::
  "frame \<Rightarrow> (string \<times> cell \<times> cell) list \<Rightarrow> string list \<Rightarrow> error + (string \<times> cell \<times> cell) list" where
  "pass_anat_qc_loop anatomical_metrics pass_anat_qc [] = Inr pass_anat_qc"
| "pass_anat_qc_loop anatomical_metrics pass_anat_qc (ident # rest) =
     (let sub = subject_of ident
      in case loc anatomical_metrics sub ''anatomical_dice'' of Inl e \<Rightarrow> Inl e
         | Inr d \<Rightarrow>
            (case loc anatomical_metrics sub ''pass_qc'' of Inl e \<Rightarrow> Inl e
             | Inr q \<Rightarrow>
                pass_anat_qc_loop anatomical_metrics (dict_update ident (d, q) pass_anat_qc) rest))"

text \<open>\<^verbatim>\<open>pd.DataFrame(pass_anat_qc).T\<close>: without rows the frame has no columns either.\<close>

definition anat_qc_frame :: "(string \<times> cell \<times> cell) list \<Rightarrow> frame" where
  "anat_qc_frame d =
     \<lparr>index_name = None, index = map fst d,
      columns = (if d = [] then []
                 else [(''anatomical_dice'', map (\<lambda>(k, a, q). a) d),
                       (''pass_anat_qc'', map (\<lambda>(k, a, q). q) d)])\<rparr>"

text \<open>
  The second half of \<^verbatim>\<open>quality_accessments\<close>, from the loop to the returned table.  Of
  the summary line that is printed only the conversion of the count is kept, since it
  can raise.
\<close>

definition combine_qc :: "frame \<Rightarrow> frame \<Rightarrow> error + frame" where
  "combine_qc functional_metrics anatomical_metrics =
     (case pass_anat_qc_loop anatomical_metrics [] (index functional_metrics) of Inl e \<Rightarrow> Inl e
      | Inr pass_anat_qc \<Rightarrow>
     (case concat_columns functional_metrics (anat_qc_frame pass_anat_qc) of Inl e \<Rightarrow> Inl e
      | Inr metrics \<Rightarrow>
     (case get_column metrics ''pass_func_qc'' of Inl e \<Rightarrow> Inl e
      | Inr f \<Rightarrow>
     (case get_column metrics ''pass_anat_qc'' of Inl e \<Rightarrow> Inl e
      | Inr a \<Rightarrow>
     (case cells_mul f a of Inl e \<Rightarrow> Inl e
      | Inr pass_all \<Rightarrow>
     (case int_of_sum pass_all of Some e \<Rightarrow> Inl e
      | None \<Rightarrow> Inr (set_column metrics ''pass_all_qc'' pass_all)))))))"

text \<open>
  \<^verbatim>\<open>quality_accessments\<close>.  The first component is the frame that was passed as
  \<^verbatim>\<open>functional_metrics\<close> as the call leaves it, the second what the call returns or
  raises.  The frame passed as \<^verbatim>\<open>anatomical_metrics\<close> is only read.
\<close>

definition quality_accessments :: "frame \<Rightarrow> frame \<Rightarrow> frame \<times> (error + frame)" where
  "quality_accessments functional_metrics anatomical_metrics =
     (case pass_func_qc functional_metrics of
        Inl e \<Rightarrow> (functional_metrics, Inl e)
      | Inr col \<Rightarrow>
          (let functional_metrics = set_column functional_metrics ''pass_func_qc'' col
           in (functional_metrics, combine_qc functional_metrics anatomical_metrics)))"

section \<open>Parsing the identifiers\<close>

text \<open>
  \<^verbatim>\<open>series.str.split("_", expand=True)\<close>: one column per position, as many as the
  longest row has pieces, with the missing value where a row is shorter.
\<close>

definition str_split_expand :: "string list \<Rightarrow> cell list list" where
  "str_split_expand ids =
     (let parts = map (py_split ''_'') ids;
          width = foldr max (map length parts) 0
      in map (\<lambda>j. map (\<lambda>p. if j < length p then CStr (p ! j) else CNone) parts) [0..<width])"

text \<open>
  \<^verbatim>\<open>frame[keys] = value\<close> with a frame on the right that has as many columns as there
  are keys: the columns are assigned one after the other.
\<close>

definition assign_columns :: "frame \<Rightarrow> string list \<Rightarrow> cell list list \<Rightarrow> frame" where
  "assign_columns f keys cols = fold (\<lambda>(k, c) g. set_column g k c) (zip keys cols) f"

definition drop_column :: "frame \<Rightarrow> string \<Rightarrow> frame" where
  "drop_column f name = f\<lparr>columns := filter (\<lambda>(n, c). n \<noteq> name) (columns f)\<rparr>"

text \<open>\<^verbatim>\<open>series.str.replace(old, new)\<close> on one cell: what is not a string becomes missing.\<close>

fun str_replace_cell :: "string \<Rightarrow> string \<Rightarrow> cell \<Rightarrow> cell" where
  "str_replace_cell old new (CStr s) = CStr (py_replace old new s)"
| "str_replace_cell old new c = CNone"

text \<open>The loop over the headers that removes \<^verbatim>\<open>h-\<close> from the column \<open>h\<close>.\<close>

fun strip_loop :: "frame \<Rightarrow> string list \<Rightarrow> error + frame" where
  "strip_loop identifiers [] = Inr identifiers"
| "strip_loop identifiers (h # hs) =
     (case get_column identifiers h of Inl e \<Rightarrow> Inl e
      | Inr c \<Rightarrow>
          strip_loop (set_column identifiers h (map (str_replace_cell (h @ ''-'') []) c)) hs)"

definition rename_column :: "frame \<Rightarrow> string \<Rightarrow> string \<Rightarrow> frame" where
  "rename_column f old new = f\<lparr>columns := map (\<lambda>(n, c). (if n = old then new else n, c)) (columns f)\<rparr>"

definition headers_of :: "string \<Rightarrow> string list" where
  "headers_of ident = map (\<lambda>e. hd (py_split ''-'' e)) (py_split ''_'' ident)"

text \<open>
  \<^verbatim>\<open>parse_scan_information\<close>.  The first component is the frame that was passed as
  \<^verbatim>\<open>metrics\<close> as the call leaves it, the second what the call returns or raises.
\<close>

definition parse_scan_information :: "frame \<Rightarrow> frame \<times> (error + frame)" where
  "parse_scan_information metrics0 =
     (let metrics = metrics0\<lparr>index_name := Some ''identifier''\<rparr>
      in (metrics,
          case index metrics of [] \<Rightarrow> Inl IndexError
          | first # others \<Rightarrow>
             (let headers = headers_of first;
                  identifiers = \<lparr>index_name = index_name metrics, index = index metrics,
                                 columns = [(''identifier'', map CStr (index metrics))]\<rparr>;
                  expanded = str_split_expand (index metrics)
              in if length expanded \<noteq> length headers then Inl ValueError
                 else (let identifiers = assign_columns identifiers headers expanded;
                           identifiers = drop_column identifiers ''identifier''
                       in case strip_loop identifiers headers of Inl e \<Rightarrow> Inl e
                          | Inr identifiers \<Rightarrow>
                              concat_columns
                                (rename_column identifiers ''sub'' ''participant_id'') metrics))))"

text \<open>
  Putting an identifier together again from the parsed columns of a row: each value
  behind its key and a hyphen, joined by underscores.  The subject's value is read from
  the column \<^verbatim>\<open>participant_id\<close>.
\<close>

definition column_of_key :: "string \<Rightarrow> string" where
  "column_of_key k = (if k = ''sub'' then ''participant_id'' else k)"

definition cell_text :: "cell \<Rightarrow> string option" where
  "cell_text c = (case c of CStr s \<Rightarrow> Some s | _ \<Rightarrow> None)"

definition rejoin :: "frame \<Rightarrow> string list \<Rightarrow> nat \<Rightarrow> string option" where
  "rejoin parsed keys i =
     map_option (py_join ''_'')
       (those (map (\<lambda>k. case map_of (columns parsed) (column_of_key k) of
                           None \<Rightarrow> None
                         | Some c \<Rightarrow> if i < length c
                                      then map_option (\<lambda>v. k @ ''-'' @ v) (cell_text (c ! i))
                                      else None) keys))"

section \<open>A small dataset for the examples\<close>

text \<open>
  Masks of four voxels on one grid, a layout in which subject 01 has an anatomical mask
  and subject 02 has none and in which both have a functional mask with a gap (voxel 0
  and voxels 2 and 3 are set), and two tables as the metric calculators build them.
\<close>

definition identity_affine :: "fval list" where
  "identity_affine = [Fin 1, Fin 0, Fin 0, Fin 0,  Fin 0, Fin 1, Fin 0, Fin 0,
                      Fin 0, Fin 0, Fin 1, Fin 0,  Fin 0, Fin 0, Fin 0, Fin 1]"

definition example_fs :: "string \<Rightarrow> volume" where
  "example_fs p =
     \<lparr>affine = identity_affine, shape = [1, 1, 4],
      fdata = (if p = ''empty_mask.nii.gz'' then [Fin 0, Fin 0, Fin 0, Fin 0]
               else if p = ''sub-01_desc-brain_mask.nii.gz'' then [Fin 1, Fin 1, Fin 0, Fin 0]
               else if p = ''sub-01_task-rest_desc-brain_mask.nii.gz''
                     \<or> p = ''sub-02_task-rest_desc-brain_mask.nii.gz''
               then [Fin 1, Fin 0, Fin 1, Fin 1]
               else [Fin 1, Fin 1, Fin 1, Fin 0])\<rparr>"

text \<open>Resampling is never called on this dataset; any function will do.\<close>

definition example_resample :: "volume \<Rightarrow> volume \<Rightarrow> volume" where
  "example_resample t p = t\<lparr>affine := affine p, shape := shape p\<rparr>"

definition example_layout :: "bids_filter \<Rightarrow> string list" where
  "example_layout q =
     (if q = anat_filter ''01'' then [''sub-01_desc-brain_mask.nii.gz'']
      else if q = func_filter [''01'', ''02''] [''rest'']
      then [''sub-01_task-rest_desc-brain_mask.nii.gz'',
            ''sub-02_task-rest_desc-brain_mask.nii.gz'']
      else [])"

text \<open>What nilearn makes of the two functional masks.\<close>

definition example_group_mask :: volume where
  "example_group_mask =
     \<lparr>affine = identity_affine, shape = [1, 1, 4], fdata = [Fin 0, Fin 0, Fin 1, Fin 1]\<rparr>"

definition example_functional :: frame where
  "example_functional =
     \<lparr>index_name = None, index = [''sub-01_task-rest'', ''sub-02_task-rest''],
      columns = [(''mean_fd_raw'', [CNum (Fin 0.55), CNum (Fin 0.54999)]),
                 (''mean_fd_scrubbed'', [CNum (Fin 0.1), CNum (Fin 0.1)]),
                 (''proportion_kept'', [CNum (Fin 0.8), CNum (Fin 0.8)]),
                 (''functional_dice'', [CNum (Fin 0.95), CNum (Fin 0.95)])]\<rparr>"

definition example_anatomical :: frame where
  "example_anatomical =
     \<lparr>index_name = None, index = [''01'', ''02''],
      columns = [(''anatomical_dice'', [CNum (Fin 0.995), CNum (Fin 0.98)]),
                 (''pass_qc'', [CBool True, CBool False])]\<rparr>"

text \<open>The same anatomical table without subject 02.\<close>

definition example_anatomical_01 :: frame where
  "example_anatomical_01 =
     \<lparr>index_name = None, index = [''01''],
      columns = [(''anatomical_dice'', [CNum (Fin 0.995)]), (''pass_qc'', [CBool True])]\<rparr>"

text \<open>A confound file whose first framewise displacement is missing, as fMRIPrep writes it.\<close>

definition example_read_csv :: "string \<Rightarrow> string \<rightharpoonup> fval list" where
  "example_read_csv f = [''framewise_displacement'' \<mapsto> [NaN, Fin 0.1, Fin 0.3]]"

text \<open>
  A table with one identifier whose task label contains \<^verbatim>\<open>task-\<close> again, and what
  \<^verbatim>\<open>parse_scan_information\<close> returns for it.
\<close>

definition example_hyphen :: frame where
  "example_hyphen =
     \<lparr>index_name = None, index = [''sub-01_task-multi-task-2''],
      columns = [(''pass_all_qc'', [CBool True])]\<rparr>"

definition example_hyphen_parsed :: frame where
  "example_hyphen_parsed =
     \<lparr>index_name = Some ''identifier'', index = [''sub-01_task-multi-task-2''],
      columns = [(''participant_id'', [CStr ''01'']), (''task'', [CStr ''multi-2'']),
                 (''pass_all_qc'', [CBool True])]\<rparr>"

section \<open>Properties of the Dice coefficient\<close>

lemma fne_commute: "fne a b = fne b a"
  by (cases a; cases b) auto

lemma any_ne_commute: "any_ne a b = any_ne b a"
  unfolding any_ne_def
proof (induction a arbitrary: b)
  case Nil
  show ?case by simp
next
  case (Cons x xs)
  then show ?case by (cases b) (simp_all add: fne_commute)
qed

lemma np_sum_logical_and_commute: "np_sum (logical_and p t) = np_sum (logical_and t p)"
proof -
  have "filter id (logical_and p t) = filter id (logical_and t p)"
    unfolding logical_and_def
    by (induction p arbitrary: t) (case_tac t; auto)+
  then show ?thesis by (simp add: np_sum_def)
qed

lemma broadcast_rev_commute: "broadcast_rev xs ys = broadcast_rev ys xs"
proof (induction xs ys rule: broadcast_rev.induct)
  case (1 ys)
  show ?case by (cases ys) simp_all
next
  case (2 x xs)
  show ?case by simp
next
  case (3 x xs y ys)
  then show ?case by auto
qed

lemma broadcast_shapes_commute: "broadcast_shapes s t = broadcast_shapes t s"
  by (simp add: broadcast_shapes_def broadcast_rev_commute [of "rev s"])

lemma logical_and_shaped_commute:
  "map_option np_sum (logical_and_shaped s xs t ys)
     = map_option np_sum (logical_and_shaped t ys s xs)"
proof (cases "s = t")
  case True
  then show ?thesis
    by (simp add: logical_and_shaped_def np_sum_logical_and_commute)
next
  case False
  then show ?thesis
    by (simp add: logical_and_shaped_def broadcast_shapes_commute [of s t]
        np_sum_logical_and_commute split: option.splits)
qed

lemma np_sum_all_false: "\<forall>x\<in>set xs. \<not> x \<Longrightarrow> np_sum xs = 0"
  by (induction xs) (auto simp: np_sum_def)

lemma logical_and_all_false: "\<forall>x\<in>set xs. \<not> x \<Longrightarrow> \<forall>x\<in>set (logical_and xs ys). \<not> x"
  unfolding logical_and_def by (auto dest: set_zip_leftD)

text \<open>
  C2, as the code has it.  When no voxel of the processed image and no voxel of the
  template (on the grid of the processed image) is set, both counts are zero, the
  division is \<open>0 / 0\<close> on numpy integers, and the coefficient is not-a-number: no
  error is raised and the result is not 0.
\<close>

theorem dice_empty_masks_nan:
  assumes "shape (load_img fs p) = shape (template_on_grid resample (load_img fs t) (load_img fs p))"
    and "\<forall>x\<in>set (fdata (load_img fs p)). \<not> astype_bool x"
    and "\<forall>x\<in>set (fdata (template_on_grid resample (load_img fs t) (load_img fs p))). \<not> astype_bool x"
  shows "dice_coefficient fs resample p t = Inr NaN"
proof -
  let ?P = "map astype_bool (fdata (load_img fs p))"
  let ?T = "map astype_bool (fdata (template_on_grid resample (load_img fs t) (load_img fs p)))"
  have p0: "np_sum ?P = 0" using assms(2) by (intro np_sum_all_false) auto
  have t0: "np_sum ?T = 0" using assms(3) by (intro np_sum_all_false) auto
  have "\<forall>x\<in>set (logical_and ?P ?T). \<not> x"
    using assms(2) by (intro logical_and_all_false) auto
  then have i0: "np_sum (logical_and ?P ?T) = 0" by (rule np_sum_all_false)
  show ?thesis
    using assms(1) p0 t0 i0
    by (simp add: dice_coefficient_def logical_and_shaped_def Let_def np_true_divide_def)
qed

theorem dice_empty_masks_nan_witness:
  "dice_coefficient example_fs example_resample
     (Path ''empty_mask.nii.gz'') (Path ''empty_mask.nii.gz'') = Inr NaN"
  by (rule dice_empty_masks_nan)
     (simp_all add: example_fs_def template_on_grid_def any_ne_def identity_affine_def)

text \<open>
  The claim C2 as the specification states it fails: on two empty masks of the same grid
  the coefficient is not 0.
\<close>

theorem dice_empty_masks_not_zero:
  "dice_coefficient example_fs example_resample
     (Path ''empty_mask.nii.gz'') (Path ''empty_mask.nii.gz'') \<noteq> Inr (Fin 0)"
  by (simp add: dice_coefficient_def example_fs_def template_on_grid_def any_ne_def
      identity_affine_def logical_and_shaped_def logical_and_def np_sum_def np_true_divide_def)

text \<open>
  C7.  When no entry of the two affines differs, so that neither call resamples, the
  coefficient of \<open>a\<close> against \<open>b\<close> is that of \<open>b\<close> against \<open>a\<close>, errors included.
\<close>

theorem dice_symmetric:
  assumes "\<not> any_ne (affine (load_img fs a)) (affine (load_img fs b))"
  shows "dice_coefficient fs resample a b = dice_coefficient fs resample b a"
proof -
  let ?A = "load_img fs a" and ?B = "load_img fs b"
  let ?pa = "map astype_bool (fdata ?A)" and ?pb = "map astype_bool (fdata ?B)"
  from assms have rev: "\<not> any_ne (affine ?B) (affine ?A)"
    by (simp add: any_ne_commute)
  have ab: "dice_coefficient fs resample a b =
      (case map_option np_sum (logical_and_shaped (shape ?A) ?pa (shape ?B) ?pb) of
         None \<Rightarrow> Inl ValueError
       | Some n \<Rightarrow> Inr (np_true_divide (2 * n) (np_sum ?pa + np_sum ?pb)))"
    using rev by (simp add: dice_coefficient_def template_on_grid_def Let_def split: option.splits)
  have ba: "dice_coefficient fs resample b a =
      (case map_option np_sum (logical_and_shaped (shape ?B) ?pb (shape ?A) ?pa) of
         None \<Rightarrow> Inl ValueError
       | Some n \<Rightarrow> Inr (np_true_divide (2 * n) (np_sum ?pb + np_sum ?pa)))"
    using assms by (simp add: dice_coefficient_def template_on_grid_def Let_def split: option.splits)
  show ?thesis
    unfolding ab ba logical_and_shaped_commute [of "shape ?A" ?pa "shape ?B" ?pb]
    by (simp add: add.commute split: option.splits)
qed

theorem dice_symmetric_witness:
  "\<not> any_ne (affine (load_img example_fs (Path ''sub-01_desc-brain_mask.nii.gz'')))
            (affine (load_img example_fs (Path ''tpl_desc-brain_mask.nii.gz'')))
   \<and> dice_coefficient example_fs example_resample
        (Path ''sub-01_desc-brain_mask.nii.gz'') (Path ''tpl_desc-brain_mask.nii.gz'') = Inr (Fin (4 / 5))
   \<and> dice_coefficient example_fs example_resample
        (Path ''tpl_desc-brain_mask.nii.gz'') (Path ''sub-01_desc-brain_mask.nii.gz'') = Inr (Fin (4 / 5))"
proof -
  have h: "\<not> any_ne (affine (load_img example_fs (Path ''sub-01_desc-brain_mask.nii.gz'')))
            (affine (load_img example_fs (Path ''tpl_desc-brain_mask.nii.gz'')))"
    by (simp add: example_fs_def any_ne_def identity_affine_def)
  have v: "dice_coefficient example_fs example_resample
        (Path ''sub-01_desc-brain_mask.nii.gz'') (Path ''tpl_desc-brain_mask.nii.gz'') = Inr (Fin (4 / 5))"
    by (simp add: dice_coefficient_def example_fs_def template_on_grid_def any_ne_def
        identity_affine_def logical_and_shaped_def logical_and_def np_sum_def np_true_divide_def)
  from dice_symmetric [OF h, of example_resample] h v show ?thesis by simp
qed

section \<open>Properties of the reference masks\<close>

lemma load_mask_img_mask: "load_mask_img v = Inr m \<Longrightarrow> m = mask_of v"
  by (auto simp: load_mask_img_def Let_def split: option.splits if_splits)

lemma mask_loop_masks:
  "mask_loop fs a s files = Inr masks \<Longrightarrow> masks = map (\<lambda>f. mask_of (fs f)) files"
  by (induction files arbitrary: masks)
     (auto split: sum.splits if_splits dest: load_mask_img_mask)

lemma grow_subset:
  "set (grow k shp grp region) \<subseteq> set region \<union> {j. j < length grp \<and> grp ! j}"
proof (induction k arbitrary: region)
  case 0
  show ?case by simp
next
  case (Suc k)
  let ?new = "remdups (filter (\<lambda>j. j < length grp \<and> grp ! j \<and> j \<notin> set region)
                           (concat (map (neighbours shp) region)))"
  show ?case
  proof (cases "?new = []")
    case True
    then show ?thesis by (simp add: Let_def)
  next
    case False
    have "set (grow k shp grp (region @ ?new)) \<subseteq> set (region @ ?new) \<union> {j. j < length grp \<and> grp ! j}"
      by (rule Suc.IH)
    moreover have "set ?new \<subseteq> {j. j < length grp \<and> grp ! j}" by auto
    ultimately have "set (grow k shp grp (region @ ?new)) \<subseteq> set region \<union> {j. j < length grp \<and> grp ! j}"
      by auto
    with False show ?thesis by (simp add: Let_def)
  qed
qed

lemma label_from_subset:
  assumes "\<forall>c\<in>set found. set c \<subseteq> {j. j < length grp \<and> grp ! j}"
    and "\<forall>i\<in>set todo. i < length grp"
  shows "\<forall>c\<in>set (label_from shp grp found todo). set c \<subseteq> {j. j < length grp \<and> grp ! j}"
  using assms
proof (induction todo arbitrary: found)
  case Nil
  then show ?case by simp
next
  case (Cons i todo)
  show ?case
  proof (cases "grp ! i \<and> i \<notin> set (concat found)")
    case True
    have "set (grow (length grp) shp grp [i]) \<subseteq> {j. j < length grp \<and> grp ! j}"
      using grow_subset [of "length grp" shp grp "[i]"] True Cons.prems(2) by auto
    with Cons.prems have "\<forall>c\<in>set (found @ [grow (length grp) shp grp [i]]).
        set c \<subseteq> {j. j < length grp \<and> grp ! j}" by auto
    moreover have "\<forall>i\<in>set todo. i < length grp" using Cons.prems(2) by simp
    ultimately have "\<forall>c\<in>set (label_from shp grp (found @ [grow (length grp) shp grp [i]]) todo).
        set c \<subseteq> {j. j < length grp \<and> grp ! j}"
      by (rule Cons.IH)
    with True show ?thesis by simp
  next
    case False
    have "\<forall>c\<in>set (label_from shp grp found todo). set c \<subseteq> {j. j < length grp \<and> grp ! j}"
      using Cons.prems by (intro Cons.IH) auto
    with False show ?thesis by auto
  qed
qed

lemma largest_in: "largest cs = [] \<or> largest cs \<in> set cs"
  by (induction cs) auto

lemma length_largest_connected_component:
  "length (largest_connected_component shp grp) = length grp"
  by (simp add: largest_connected_component_def Let_def)

lemma largest_connected_component_subset:
  assumes "i < length grp" and "largest_connected_component shp grp ! i"
  shows "grp ! i"
proof -
  let ?cs = "label_from shp grp [] [0..<length grp]"
  have sub: "\<forall>c\<in>set ?cs. set c \<subseteq> {j. j < length grp \<and> grp ! j}"
    by (rule label_from_subset) auto
  from assms have "i \<in> set (largest ?cs)"
    by (simp add: largest_connected_component_def Let_def)
  with largest_in [of ?cs] have "largest ?cs \<in> set ?cs" by auto
  with sub \<open>i \<in> set (largest ?cs)\<close> show ?thesis by auto
qed

text \<open>
  The number of voxels is enough fuel: what \<open>grow\<close> returns contains every set
  neighbour of each of its voxels.
\<close>

lemma grow_closed:
  assumes "set region \<subseteq> {j. j < length grp \<and> grp ! j}"
    and "card ({j. j < length grp \<and> grp ! j} - set region) \<le> k"
  shows "\<forall>i\<in>set (grow k shp grp region). \<forall>j\<in>set (neighbours shp i).
           j < length grp \<and> grp ! j \<longrightarrow> j \<in> set (grow k shp grp region)"
  using assms
proof (induction k arbitrary: region)
  case 0
  have "finite {j. j < length grp \<and> grp ! j}" by simp
  with 0 have "{j. j < length grp \<and> grp ! j} \<subseteq> set region" by auto
  then show ?case by auto
next
  case (Suc k)
  let ?on = "{j. j < length grp \<and> grp ! j}"
  let ?new = "remdups (filter (\<lambda>j. j < length grp \<and> grp ! j \<and> j \<notin> set region)
                           (concat (map (neighbours shp) region)))"
  show ?case
  proof (cases "?new = []")
    case True
    then have "\<forall>i\<in>set region. \<forall>j\<in>set (neighbours shp i).
        j < length grp \<and> grp ! j \<longrightarrow> j \<in> set region"
      by (auto simp: filter_empty_conv)
    with True show ?thesis by (simp add: Let_def)
  next
    case False
    then obtain x where x: "x \<in> set ?new" by (cases ?new) auto
    then have xin: "x \<in> ?on - set region" by auto
    have sub: "set (region @ ?new) \<subseteq> ?on" using Suc.prems(1) by auto
    have "?on - set (region @ ?new) \<subset> ?on - set region"
      using x xin by auto
    then have "card (?on - set (region @ ?new)) < card (?on - set region)"
      by (intro psubset_card_mono) auto
    with Suc.prems(2) have "card (?on - set (region @ ?new)) \<le> k" by simp
    with sub have "\<forall>i\<in>set (grow k shp grp (region @ ?new)). \<forall>j\<in>set (neighbours shp i).
        j < length grp \<and> grp ! j \<longrightarrow> j \<in> set (grow k shp grp (region @ ?new))"
      by (rule Suc.IH)
    with False show ?thesis by (simp add: Let_def)
  qed
qed

lemma component_closed:
  assumes "i < length grp" and "grp ! i"
  shows "\<forall>a\<in>set (grow (length grp) shp grp [i]). \<forall>j\<in>set (neighbours shp a).
           j < length grp \<and> grp ! j \<longrightarrow> j \<in> set (grow (length grp) shp grp [i])"
proof (rule grow_closed)
  show "set [i] \<subseteq> {j. j < length grp \<and> grp ! j}" using assms by simp
  have "card ({j. j < length grp \<and> grp ! j} - set [i]) \<le> card {j. j < length grp}"
    by (intro card_mono) auto
  then show "card ({j. j < length grp \<and> grp ! j} - set [i]) \<le> length grp" by simp
qed

lemma majority_vote_unfold:
  "ms \<noteq> [] \<Longrightarrow> majority_vote ms t =
     map (\<lambda>i. t * real (length ms) < real (length (filter (\<lambda>m. i < length m \<and> m ! i) ms)))
       [0..<length (hd ms)]"
  by (cases ms) (simp_all add: majority_vote_def)

lemma majority_vote_nth:
  assumes "i < length (majority_vote (map g files) (1 / 2))"
    and "majority_vote (map g files) (1 / 2) ! i"
  shows "length files < 2 * length (filter (\<lambda>f. i < length (g f) \<and> g f ! i) files)"
proof -
  from assms(1) have ne: "map g files \<noteq> []"
    by (auto simp: majority_vote_def)
  note mv = majority_vote_unfold [OF ne, of "1 / 2"]
  from assms(1) have i: "i < length (hd (map g files))" by (simp add: mv)
  have "filter (\<lambda>m. i < length m \<and> m ! i) (map g files)
      = map g (filter (\<lambda>f. i < length (g f) \<and> g f ! i) files)"
    by (simp add: filter_map comp_def)
  then have c: "length (filter (\<lambda>m. i < length m \<and> m ! i) (map g files))
      = length (filter (\<lambda>f. i < length (g f) \<and> g f ! i) files)"
    by simp
  from assms(2) i have "1 / 2 * real (length (map g files))
      < real (length (filter (\<lambda>m. i < length m \<and> m ! i) (map g files)))"
    unfolding mv by simp
  then have "real (length files) < 2 * real (length (filter (\<lambda>f. i < length (g f) \<and> g f ! i) files))"
    unfolding c by simp
  then show ?thesis by linarith
qed

lemma intersect_masks_result:
  assumes "intersect_masks fs files (1 / 2) True = Inr g"
  shows "fdata g = as_int8
           (let vote = majority_vote (map (\<lambda>f. mask_of (fs f)) files) (1 / 2)
            in if list_ex id vote then largest_connected_component (shape g) vote else vote)"
proof -
  from assms obtain first others where files: "files = first # others"
    by (cases files) (auto simp: intersect_masks_def)
  from assms obtain masks
    where ml: "mask_loop fs (affine (fs first)) (shape_3d (fs first)) files = Inr masks"
    by (auto simp: intersect_masks_def files split: sum.splits if_splits)
  then have masks: "masks = map (\<lambda>f. mask_of (fs f)) files"
    by (rule mask_loop_masks)
  have m: "min (1 / 2) (1 - 1 / 10 ^ 7) = (1 / 2 :: real)" by simp
  from assms have "g = \<lparr>affine = affine (fs first),
      shape = (case shape_3d (fs first) of None \<Rightarrow> [] | Some s \<Rightarrow> s),
      fdata = as_int8
        (if list_ex id (majority_vote masks (1 / 2))
         then largest_connected_component (case shape_3d (fs first) of None \<Rightarrow> [] | Some s \<Rightarrow> s)
                (majority_vote masks (1 / 2))
         else majority_vote masks (1 / 2))\<rparr>"
    unfolding intersect_masks_def files list.case ml [unfolded files] Let_def m
    by (auto split: sum.splits if_splits)
  then show ?thesis
    by (simp add: masks Let_def)
qed

lemma example_func_masks:
  "example_layout (func_filter [''01'', ''02''] [''rest''])
     = [''sub-01_task-rest_desc-brain_mask.nii.gz'', ''sub-02_task-rest_desc-brain_mask.nii.gz'']"
  by (simp add: example_layout_def func_filter_def anat_filter_def)

lemma example_mask_of:
  "mask_of (example_fs ''sub-01_task-rest_desc-brain_mask.nii.gz'') = [True, False, True, True]"
  "mask_of (example_fs ''sub-02_task-rest_desc-brain_mask.nii.gz'') = [True, False, True, True]"
  by (simp_all add: mask_of_def example_fs_def)

lemma example_vote:
  "majority_vote [[True, False, True, True], [True, False, True, True]] (1 / 2)
     = [True, False, True, True]"
  by (simp add: majority_vote_def upt_rec)

lemma example_component:
  "largest_connected_component [1, 1, 4] [True, False, True, True] = [False, False, True, True]"
  by (simp add: largest_connected_component_def neighbours_def upt_rec Let_def)

lemma example_intersect:
  "intersect_masks example_fs
     [''sub-01_task-rest_desc-brain_mask.nii.gz'', ''sub-02_task-rest_desc-brain_mask.nii.gz'']
     (1 / 2) True = Inr example_group_mask"
proof -
  have l: "load_mask_img (example_fs ''sub-01_task-rest_desc-brain_mask.nii.gz'')
        = Inr [True, False, True, True]"
      "load_mask_img (example_fs ''sub-02_task-rest_desc-brain_mask.nii.gz'')
        = Inr [True, False, True, True]"
    by (simp_all add: load_mask_img_def shape_3d_def mask_of_def example_fs_def)
  have s: "shape_3d (example_fs f) = Some [1, 1, 4]" for f
    by (simp add: shape_3d_def example_fs_def)
  have a: "\<not> any_ne identity_affine identity_affine"
    by (simp add: any_ne_def identity_affine_def)
  have af: "affine (example_fs f) = identity_affine" for f
    by (simp add: example_fs_def)
  show ?thesis
    by (simp add: intersect_masks_def l s a af example_vote Let_def
        example_component [unfolded One_nat_def] as_int8_def example_group_mask_def)
qed

text \<open>
  C4, as the code has it.  At the group level with more than one subject the entry
  \<^verbatim>\<open>func\<close> is what \<^verbatim>\<open>intersect_masks\<close> returns for the listed functional masks at
  threshold 0.5 with its default \<^verbatim>\<open>connected=True\<close> (and its error is raised if it
  fails): the largest connected component of the voxel-wise vote, so that every voxel
  set in it is set in more than half of the masks, while a voxel set in more than half of
  the masks need not be set in it.  In every other case the entry \<^verbatim>\<open>func\<close> is the
  template mask, the same as the entry \<^verbatim>\<open>anat\<close>.
\<close>

theorem reference_mask_func_entry:
  "(analysis_level = ''group'' \<and> 1 < length subjects \<longrightarrow>
      (\<forall>g. intersect_masks fs (layout (func_filter subjects task)) 0.5 True = Inr g \<longrightarrow>
         (\<exists>m. get_reference_mask template_mask layout fs analysis_level subjects task = Inr m
            \<and> m ''func'' = Some (Img g) \<and> m ''anat'' = Some template_mask)
         \<and> fdata g = as_int8
              (let vote = majority_vote (map (\<lambda>f. mask_of (fs f))
                                           (layout (func_filter subjects task))) 0.5
               in if list_ex id vote then largest_connected_component (shape g) vote else vote)
         \<and> (\<forall>i<length (fdata g). fdata g ! i \<noteq> Fin 0 \<longrightarrow>
               length (layout (func_filter subjects task))
                 < 2 * length (filter (\<lambda>f. i < length (mask_of (fs f)) \<and> mask_of (fs f) ! i)
                                 (layout (func_filter subjects task)))))
      \<and> (\<forall>e. intersect_masks fs (layout (func_filter subjects task)) 0.5 True = Inl e \<longrightarrow>
         get_reference_mask template_mask layout fs analysis_level subjects task = Inl e))
   \<and> (\<not> (analysis_level = ''group'' \<and> 1 < length subjects) \<longrightarrow>
      (\<exists>m. get_reference_mask template_mask layout fs analysis_level subjects task = Inr m
         \<and> m ''func'' = Some template_mask \<and> m ''anat'' = Some template_mask))"
proof -
  let ?files = "layout (func_filter subjects task)"
  let ?vote = "majority_vote (map (\<lambda>f. mask_of (fs f)) ?files) (1 / 2)"
  have vote: "length ?files
        < 2 * length (filter (\<lambda>f. i < length (mask_of (fs f)) \<and> mask_of (fs f) ! i) ?files)"
    if g: "intersect_masks fs ?files (1 / 2) True = Inr g"
      and i: "i < length (fdata g)" and set: "fdata g ! i \<noteq> Fin 0" for g i
  proof -
    let ?X = "if list_ex id ?vote then largest_connected_component (shape g) ?vote else ?vote"
    from intersect_masks_result [OF g] have d: "fdata g = as_int8 ?X"
      by (simp add: Let_def)
    have lx: "length ?X = length ?vote"
      by (simp add: length_largest_connected_component)
    from i d have ix: "i < length ?X" by (simp add: as_int8_def)
    with set d have x: "?X ! i" by (auto simp: as_int8_def split: if_splits)
    from ix lx have iv: "i < length ?vote" by simp
    have "?vote ! i"
    proof (cases "list_ex id ?vote")
      case True
      with x have "largest_connected_component (shape g) ?vote ! i" by simp
      with iv show ?thesis by (rule largest_connected_component_subset)
    next
      case False
      with x show ?thesis by simp
    qed
    with iv show ?thesis by (rule majority_vote_nth)
  qed
  show ?thesis
    using intersect_masks_result [of fs ?files] vote
    by (auto simp: get_reference_mask_def Let_def)
qed

theorem reference_mask_func_entry_witness:
  "(\<exists>m. get_reference_mask (Path ''tpl_desc-brain_mask.nii.gz'') example_layout example_fs
            ''group'' [''01'', ''02''] [''rest''] = Inr m
        \<and> m ''func'' = Some (Img example_group_mask)
        \<and> m ''anat'' = Some (Path ''tpl_desc-brain_mask.nii.gz''))
   \<and> fdata example_group_mask = as_int8 (largest_connected_component [1, 1, 4] [True, False, True, True])
   \<and> fdata example_group_mask ! 2 \<noteq> Fin 0
   \<and> length (example_layout (func_filter [''01'', ''02''] [''rest'']))
        < 2 * length (filter (\<lambda>f. 2 < length (mask_of (example_fs f)) \<and> mask_of (example_fs f) ! 2)
                        (example_layout (func_filter [''01'', ''02''] [''rest''])))
   \<and> get_reference_mask (Path ''tpl_desc-brain_mask.nii.gz'') example_layout example_fs
        ''group'' [''01'', ''03''] [''rest''] = Inl ValueError
   \<and> (\<exists>m. get_reference_mask (Path ''tpl_desc-brain_mask.nii.gz'') example_layout example_fs
            ''participant'' [''01'', ''02''] [''rest''] = Inr m
        \<and> m ''func'' = Some (Path ''tpl_desc-brain_mask.nii.gz'')
        \<and> m ''anat'' = Some (Path ''tpl_desc-brain_mask.nii.gz''))
   \<and> (\<exists>m. get_reference_mask (Path ''tpl_desc-brain_mask.nii.gz'') example_layout example_fs
            ''group'' [''01''] [''rest''] = Inr m
        \<and> m ''func'' = Some (Path ''tpl_desc-brain_mask.nii.gz'')
        \<and> m ''anat'' = Some (Path ''tpl_desc-brain_mask.nii.gz''))"
proof -
  let ?tpl = "Path ''tpl_desc-brain_mask.nii.gz''"
  have g: "intersect_masks example_fs (example_layout (func_filter [''01'', ''02''] [''rest'']))
      0.5 True = Inr example_group_mask"
    using example_intersect by (simp add: example_func_masks)
  have e: "intersect_masks example_fs (example_layout (func_filter [''01'', ''03''] [''rest'']))
      0.5 True = Inl ValueError"
    by (simp add: intersect_masks_def example_layout_def func_filter_def anat_filter_def)
  have d2: "fdata example_group_mask ! 2 \<noteq> Fin 0" "2 < length (fdata example_group_mask)"
    by (simp_all add: example_group_mask_def)
  note t = reference_mask_func_entry [where analysis_level = "''group''"
        and subjects = "[''01'', ''02'']" and task = "[''rest'']" and layout = example_layout
        and fs = example_fs and template_mask = ?tpl]
  have c1: "''group'' = ''group'' \<and> 1 < length [''01'', ''02'']" by simp
  note k = t [THEN conjunct1, THEN mp, OF c1, THEN conjunct1, THEN spec, THEN mp, OF g]
  have a: "\<exists>m. get_reference_mask ?tpl example_layout example_fs
            ''group'' [''01'', ''02''] [''rest''] = Inr m
        \<and> m ''func'' = Some (Img example_group_mask) \<and> m ''anat'' = Some ?tpl"
    using k [THEN conjunct1] .
  have a2: "fdata example_group_mask
      = as_int8 (largest_connected_component [1, 1, 4] [True, False, True, True])"
    using k [THEN conjunct2, THEN conjunct1]
    by (simp add: example_func_masks example_mask_of example_vote example_group_mask_def)
  have a3: "length (example_layout (func_filter [''01'', ''02''] [''rest'']))
        < 2 * length (filter (\<lambda>f. 2 < length (mask_of (example_fs f)) \<and> mask_of (example_fs f) ! 2)
                        (example_layout (func_filter [''01'', ''02''] [''rest''])))"
    using k [THEN conjunct2, THEN conjunct2, THEN spec, of 2] d2 by blast
  have b: "get_reference_mask ?tpl example_layout example_fs
        ''group'' [''01'', ''03''] [''rest''] = Inl ValueError"
    using e reference_mask_func_entry [where analysis_level = "''group''"
        and subjects = "[''01'', ''03'']" and task = "[''rest'']" and layout = example_layout
        and fs = example_fs and template_mask = ?tpl]
    by simp
  have c: "\<exists>m. get_reference_mask ?tpl example_layout example_fs
            ''participant'' [''01'', ''02''] [''rest''] = Inr m
        \<and> m ''func'' = Some ?tpl \<and> m ''anat'' = Some ?tpl"
    using reference_mask_func_entry [where analysis_level = "''participant''"
        and subjects = "[''01'', ''02'']" and task = "[''rest'']" and layout = example_layout
        and fs = example_fs and template_mask = ?tpl]
    by simp
  have d: "\<exists>m. get_reference_mask ?tpl example_layout example_fs
            ''group'' [''01''] [''rest''] = Inr m
        \<and> m ''func'' = Some ?tpl \<and> m ''anat'' = Some ?tpl"
    using reference_mask_func_entry [where analysis_level = "''group''"
        and subjects = "[''01'']" and task = "[''rest'']" and layout = example_layout
        and fs = example_fs and template_mask = ?tpl]
    by simp
  from a a2 a3 d2(1) b c d show ?thesis by blast
qed

text \<open>
  The claim C4 as the specification states it fails: for two subjects whose functional
  masks have voxels 0, 2 and 3 set, the vote has these three voxels, and the entry
  \<^verbatim>\<open>func\<close> has voxels 2 and 3 only.
\<close>

theorem group_mask_is_not_the_vote:
  "\<not> isl (get_reference_mask (Path ''tpl_desc-brain_mask.nii.gz'') example_layout example_fs
            ''group'' [''01'', ''02''] [''rest''])
   \<and> projr (get_reference_mask (Path ''tpl_desc-brain_mask.nii.gz'') example_layout example_fs
            ''group'' [''01'', ''02''] [''rest'']) ''func''
       = Some (Img example_group_mask)
   \<and> fdata example_group_mask = [Fin 0, Fin 0, Fin 1, Fin 1]
   \<and> as_int8 (majority_vote
        [mask_of (example_fs ''sub-01_task-rest_desc-brain_mask.nii.gz''),
         mask_of (example_fs ''sub-02_task-rest_desc-brain_mask.nii.gz'')] (1 / 2))
       = [Fin 1, Fin 0, Fin 1, Fin 1]"
  by (simp add: get_reference_mask_def example_func_masks example_intersect example_mask_of
      example_vote as_int8_def example_group_mask_def)

section \<open>Properties of the functional metrics\<close>

lemma kept_volumes_nan: "i < length fds \<Longrightarrow> fds ! i = NaN \<Longrightarrow> \<not> kept_volumes t fds ! i"
  by (simp add: kept_volumes_def)

lemma boolean_index_kept: "x \<in> set (boolean_index fds (kept_volumes t fds)) \<Longrightarrow> flt x t"
  unfolding boolean_index_def kept_volumes_def
  by (auto simp: zip_map2 in_set_zip)

lemma count_kept_le:
  "length (filter id (kept_volumes t fds)) \<le> length (filter (\<lambda>x. x \<noteq> NaN) fds)"
  unfolding kept_volumes_def
  by (induction fds) auto

lemma count_kept_less:
  assumes "NaN \<in> set fds"
  shows "length (filter id (kept_volumes t fds)) < length fds"
proof -
  have "length (filter (\<lambda>x. x \<noteq> NaN) fds) < length fds"
    using assms by (intro length_filter_less) auto
  with count_kept_le [of t fds] show ?thesis by simp
qed

text \<open>
  C9.  For the framewise displacements \<open>fds\<close> of a confound file with a missing value:
  the kept mask is false at every missing entry; no missing entry is among the values
  whose mean is the scrubbed mean; the iteration of the loop stores a row whose
  \<^verbatim>\<open>proportion_kept\<close> is the number of kept volumes over the length of the whole series,
  missing entries counted, and that is less than 1.
\<close>

theorem missing_fd_never_kept:
  assumes "read_csv confound_file ''framewise_displacement'' = Some fds" and "NaN \<in> set fds"
  shows "(\<forall>i<length fds. fds ! i = NaN \<longrightarrow> \<not> kept_volumes (Fin 0.2) fds ! i)
    \<and> NaN \<notin> set (boolean_index fds (kept_volumes (Fin 0.2) fds))
    \<and> (\<exists>p. p = real (length (filter id (kept_volumes (Fin 0.2) fds))) / real (length fds)
        \<and> p < 1
        \<and> motion_metrics fds =
            Inr [(''mean_fd_raw'', nanmean fds),
                 (''mean_fd_scrubbed'', nanmean (boolean_index fds (kept_volumes (Fin 0.2) fds))),
                 (''proportion_kept'', Fin p)]
        \<and> confound_loop read_csv metrics (confound_file # rest) =
            confound_loop read_csv
              (dict_update (hd (py_split ''_desc-confounds'' (path_name confound_file)))
                 [(''mean_fd_raw'', nanmean fds),
                  (''mean_fd_scrubbed'', nanmean (boolean_index fds (kept_volumes (Fin 0.2) fds))),
                  (''proportion_kept'', Fin p)] metrics) rest)"
proof -
  let ?k = "kept_volumes (Fin 0.2) fds"
  let ?p = "real (length (filter id ?k)) / real (length fds)"
  let ?row = "[(''mean_fd_raw'', nanmean fds),
               (''mean_fd_scrubbed'', nanmean (boolean_index fds ?k)),
               (''proportion_kept'', Fin ?p)]"
  have a: "\<forall>i<length fds. fds ! i = NaN \<longrightarrow> \<not> ?k ! i"
    by (simp add: kept_volumes_nan)
  have b: "NaN \<notin> set (boolean_index fds ?k)"
    using boolean_index_kept [of NaN fds "Fin 0.2"] by auto
  have ne: "fds \<noteq> []" using assms(2) by auto
  have lt: "length (filter id ?k) < length fds"
    using assms(2) by (rule count_kept_less)
  have kne: "?k \<noteq> []" using ne by (simp add: kept_volumes_def)
  have m: "motion_metrics fds = Inr ?row"
    using ne kne
    by (simp add: motion_metrics_def standard_def qulaity_control_standards_def Let_def
        sum_div_def np_true_divide_def np_sum_def)
  have l: "confound_loop read_csv metrics (confound_file # rest) =
      confound_loop read_csv
        (dict_update (hd (py_split ''_desc-confounds'' (path_name confound_file))) ?row metrics) rest"
    using assms(1) m by (simp add: Let_def)
  have p: "?p < 1" using lt ne by simp
  from a b p m l show ?thesis by blast
qed

theorem missing_fd_never_kept_witness:
  "NaN \<in> set [NaN, Fin 0.1, Fin 0.3]
   \<and> kept_volumes (Fin 0.2) [NaN, Fin 0.1, Fin 0.3] = [False, True, False]
   \<and> boolean_index [NaN, Fin 0.1, Fin 0.3] (kept_volumes (Fin 0.2) [NaN, Fin 0.1, Fin 0.3]) = [Fin 0.1]
   \<and> (\<exists>p. p < 1 \<and> motion_metrics [NaN, Fin 0.1, Fin 0.3] =
        Inr [(''mean_fd_raw'', Fin 0.2), (''mean_fd_scrubbed'', Fin 0.1), (''proportion_kept'', Fin p)])"
proof -
  have h: "NaN \<in> set [NaN, Fin 0.1, Fin 0.3]" by simp
  have r: "example_read_csv ''sub-01_task-rest_desc-confounds_timeseries.tsv''
             ''framewise_displacement'' = Some [NaN, Fin 0.1, Fin 0.3]"
    by (simp add: example_read_csv_def)
  have k: "kept_volumes (Fin 0.2) [NaN, Fin 0.1, Fin 0.3] = [False, True, False]"
    by (simp add: kept_volumes_def)
  have b: "boolean_index [NaN, Fin 0.1, Fin 0.3] [False, True, False] = [Fin 0.1]"
    by (simp add: boolean_index_def)
  have n1: "nanmean [NaN, Fin 0.1, Fin 0.3] = Fin 0.2"
    by (simp add: nanmean_def)
  have n2: "nanmean [Fin 0.1] = Fin 0.1"
    by (simp add: nanmean_def)
  from r h k b n1 n2
    missing_fd_never_kept [where read_csv = example_read_csv
      and confound_file = "''sub-01_task-rest_desc-confounds_timeseries.tsv''"
      and fds = "[NaN, Fin 0.1, Fin 0.3]" and metrics = "[]" and rest = "[]"]
  show ?thesis by auto
qed

section \<open>Properties of the anatomical metrics\<close>

text \<open>
  C10.  On the empty list of subjects the loop has nothing to do, the frame that is built
  has no column, and reading its column \<^verbatim>\<open>anatomical_dice\<close> raises a lookup error: no
  table is returned.
\<close>

theorem anat_metrics_empty_subjects:
  "calculate_anat_metrics layout fs resample [] reference_masks = Inl KeyError"
  by (simp add: calculate_anat_metrics_def dataframe_T_def inner_keys_def get_column_def)

lemma anat_loop_append:
  "anat_loop layout fs resample ref acc (pre @ rest) =
     (case anat_loop layout fs resample ref acc pre of Inl e \<Rightarrow> Inl e
      | Inr m \<Rightarrow> anat_loop layout fs resample ref m rest)"
  by (induction pre arbitrary: acc) (auto split: list.splits option.splits sum.splits)

lemma anat_loop_missing:
  "layout (anat_filter sub) = [] \<Longrightarrow> sub \<in> set subjects \<Longrightarrow>
   \<exists>e. anat_loop layout fs resample ref acc subjects = Inl e"
  by (induction subjects arbitrary: acc) (auto split: list.splits option.splits sum.splits)

text \<open>
  C5.  A subject \<open>sub\<close> of the list for which the layout finds no anatomical mask: the
  call returns no table, whatever the other subjects are; and when the loop gets
  through the subjects before \<open>sub\<close>, so that the query for \<open>sub\<close> is made, the error
  that the call raises is the index error of taking the first of no files.
\<close>

theorem anat_metrics_missing_mask:
  assumes "layout (anat_filter sub) = []"
  shows "(\<exists>e. calculate_anat_metrics layout fs resample (pre @ sub # post) reference_masks = Inl e)
    \<and> (\<forall>m. anat_loop layout fs resample reference_masks [] pre = Inr m \<longrightarrow>
           calculate_anat_metrics layout fs resample (pre @ sub # post) reference_masks
             = Inl IndexError)"
proof
  show "\<exists>e. calculate_anat_metrics layout fs resample (pre @ sub # post) reference_masks = Inl e"
    using assms anat_loop_missing [of layout sub "pre @ sub # post" fs resample reference_masks "[]"]
    by (auto simp: calculate_anat_metrics_def)
  show "\<forall>m. anat_loop layout fs resample reference_masks [] pre = Inr m \<longrightarrow>
           calculate_anat_metrics layout fs resample (pre @ sub # post) reference_masks
             = Inl IndexError"
    using assms by (simp add: calculate_anat_metrics_def anat_loop_append)
qed

theorem anat_metrics_missing_mask_witness:
  "example_layout (anat_filter ''02'') = []
   \<and> anat_loop example_layout example_fs example_resample
        [''anat'' \<mapsto> Path ''tpl_desc-brain_mask.nii.gz''] [] [''01'']
      = Inr [(''01'', [(''anatomical_dice'', Fin (4 / 5))])]
   \<and> calculate_anat_metrics example_layout example_fs example_resample [''01'', ''02'']
        [''anat'' \<mapsto> Path ''tpl_desc-brain_mask.nii.gz''] = Inl IndexError"
proof -
  have h: "example_layout (anat_filter ''02'') = []"
    by (simp add: example_layout_def anat_filter_def func_filter_def)
  have l: "example_layout (anat_filter ''01'') = [''sub-01_desc-brain_mask.nii.gz'']"
    by (simp add: example_layout_def)
  have d: "dice_coefficient example_fs example_resample
        (Path ''sub-01_desc-brain_mask.nii.gz'') (Path ''tpl_desc-brain_mask.nii.gz'') = Inr (Fin (4 / 5))"
    by (simp add: dice_coefficient_def example_fs_def template_on_grid_def any_ne_def
        identity_affine_def logical_and_shaped_def logical_and_def np_sum_def np_true_divide_def)
  have p: "anat_loop example_layout example_fs example_resample
        [''anat'' \<mapsto> Path ''tpl_desc-brain_mask.nii.gz''] [] [''01'']
      = Inr [(''01'', [(''anatomical_dice'', Fin (4 / 5))])]"
    by (simp add: l d)
  from h p
    anat_metrics_missing_mask [where layout = example_layout and sub = "''02''"
      and fs = example_fs and resample = example_resample and pre = "[''01'']" and post = "[]"
      and reference_masks = "[''anat'' \<mapsto> Path ''tpl_desc-brain_mask.nii.gz'']"]
  show ?thesis by simp
qed

section \<open>Properties of the quality assessment\<close>

lemma those_cell_num: "those (map (cell_num \<circ> CNum) xs) = Some xs"
  by (induction xs) simp_all

lemma series_lt_nums: "series_lt (map CNum xs) t = Inr (map (\<lambda>x. flt x t) xs)"
  by (simp add: series_lt_def those_cell_num)

lemma series_gt_nums: "series_gt (map CNum xs) t = Inr (map (\<lambda>x. flt t x) xs)"
  by (simp add: series_gt_def those_cell_num fgt_def)

lemma map_of_dict_update: "map_of (dict_update k v ps) = (map_of ps)(k \<mapsto> v)"
  by (induction ps) (auto simp: fun_eq_iff)

lemma get_column_set_column:
  "get_column (set_column f k v) name = (if name = k then Inr v else get_column f name)"
  by (simp add: get_column_def set_column_def map_of_dict_update)

lemma pass_func_qc_nums:
  assumes "get_column fm ''mean_fd_raw'' = Inr (map CNum fd)"
    and "get_column fm ''proportion_kept'' = Inr (map CNum prop)"
    and "get_column fm ''functional_dice'' = Inr (map CNum dice)"
  shows "pass_func_qc fm =
     Inr (map CBool (series_mul (series_mul (map (\<lambda>x. flt x (Fin 0.55)) fd)
                                            (map (\<lambda>x. flt (Fin 0.5) x) prop))
                                (map (\<lambda>x. flt (Fin 0.89) x) dice)))"
  using assms
  by (simp add: pass_func_qc_def standard_def qulaity_control_standards_def
      series_lt_nums series_gt_nums)

lemma series_mul_nth:
  "i < length xs \<Longrightarrow> i < length ys \<Longrightarrow> series_mul xs ys ! i = (xs ! i \<and> ys ! i)"
  by (simp add: series_mul_def)

lemma length_series_mul: "length (series_mul xs ys) = min (length xs) (length ys)"
  by (simp add: series_mul_def)

lemma combine_qc_keeps_column:
  assumes "combine_qc f am = Inr m" and "name \<noteq> ''pass_all_qc''"
    and "get_column f name = Inr c"
  shows "get_column m name = Inr c"
proof -
  from assms(1) obtain cols x
    where m: "m = set_column (f\<lparr>columns := columns f @ cols\<rparr>) ''pass_all_qc'' x"
    by (auto simp: combine_qc_def concat_columns_def split: sum.splits if_splits option.splits)
  from assms(3) have "map_of (columns f) name = Some c"
    by (simp add: get_column_def split: option.splits)
  then show ?thesis
    using assms(2) by (simp add: m get_column_def set_column_def map_of_dict_update)
qed

text \<open>
  C1.  For a functional table whose three metric columns hold numbers (not-a-number
  included), one per row: the column \<^verbatim>\<open>pass_func_qc\<close> that the call writes to the table,
  and that the returned table carries, is true in a row exactly when its
  \<^verbatim>\<open>mean_fd_raw\<close> is below 0.55, its \<^verbatim>\<open>proportion_kept\<close> above 0.5 and its
  \<^verbatim>\<open>functional_dice\<close> above 0.89, all three strictly; a row whose \<^verbatim>\<open>mean_fd_raw\<close> is
  0.55 does not pass.
\<close>

theorem pass_func_qc_rule:
  assumes "get_column fm ''mean_fd_raw'' = Inr (map CNum fd)"
    and "get_column fm ''proportion_kept'' = Inr (map CNum prop)"
    and "get_column fm ''functional_dice'' = Inr (map CNum dice)"
    and "length fd = n" and "length prop = n" and "length dice = n"
  shows "\<exists>col. get_column (fst (quality_accessments fm am)) ''pass_func_qc'' = Inr col
     \<and> (\<forall>m. snd (quality_accessments fm am) = Inr m \<longrightarrow> get_column m ''pass_func_qc'' = Inr col)
     \<and> length col = n
     \<and> (\<forall>i<n. col ! i = CBool (flt (fd ! i) (Fin 0.55) \<and> fgt (prop ! i) (Fin 0.5)
                               \<and> fgt (dice ! i) (Fin 0.89)))
     \<and> (\<forall>i<n. fd ! i = Fin 0.55 \<longrightarrow> col ! i = CBool False)"
proof -
  let ?col = "map CBool (series_mul (series_mul (map (\<lambda>x. flt x (Fin 0.55)) fd)
                                            (map (\<lambda>x. flt (Fin 0.5) x) prop))
                                (map (\<lambda>x. flt (Fin 0.89) x) dice))"
  have p: "pass_func_qc fm = Inr ?col"
    using assms(1-3) by (rule pass_func_qc_nums)
  have qa: "quality_accessments fm am =
      (set_column fm ''pass_func_qc'' ?col, combine_qc (set_column fm ''pass_func_qc'' ?col) am)"
    by (simp add: quality_accessments_def p Let_def)
  have a: "get_column (fst (quality_accessments fm am)) ''pass_func_qc'' = Inr ?col"
    by (simp add: qa get_column_set_column)
  have b: "\<forall>m. snd (quality_accessments fm am) = Inr m \<longrightarrow> get_column m ''pass_func_qc'' = Inr ?col"
    using combine_qc_keeps_column [of "set_column fm ''pass_func_qc'' ?col" am _ "''pass_func_qc''" ?col]
    by (simp add: qa get_column_set_column)
  have c: "length ?col = n"
    using assms(4-6) by (simp add: length_series_mul)
  have d: "\<forall>i<n. ?col ! i = CBool (flt (fd ! i) (Fin 0.55) \<and> fgt (prop ! i) (Fin 0.5)
                               \<and> fgt (dice ! i) (Fin 0.89))"
    using assms(4-6) by (simp add: length_series_mul series_mul_nth fgt_def)
  have e: "\<forall>i<n. fd ! i = Fin 0.55 \<longrightarrow> ?col ! i = CBool False"
    using d by simp
  from a b c d e show ?thesis by blast
qed

theorem pass_func_qc_rule_witness:
  "get_column (fst (quality_accessments example_functional example_anatomical)) ''pass_func_qc''
     = Inr [CBool False, CBool True]
   \<and> (\<exists>m. snd (quality_accessments example_functional example_anatomical) = Inr m
        \<and> get_column m ''pass_func_qc'' = Inr [CBool False, CBool True])"
proof -
  have h1: "get_column example_functional ''mean_fd_raw'' = Inr (map CNum [Fin 0.55, Fin 0.54999])"
    by (simp add: example_functional_def get_column_def)
  have h2: "get_column example_functional ''proportion_kept'' = Inr (map CNum [Fin 0.8, Fin 0.8])"
    by (simp add: example_functional_def get_column_def)
  have h3: "get_column example_functional ''functional_dice'' = Inr (map CNum [Fin 0.95, Fin 0.95])"
    by (simp add: example_functional_def get_column_def)
  from pass_func_qc_rule [OF h1 h2 h3, of 2 example_anatomical]
  obtain col where c1: "get_column (fst (quality_accessments example_functional example_anatomical))
        ''pass_func_qc'' = Inr col"
    and c2: "\<forall>m. snd (quality_accessments example_functional example_anatomical) = Inr m \<longrightarrow>
        get_column m ''pass_func_qc'' = Inr col"
    and c3: "length col = 2"
    and c4: "\<forall>i<2. col ! i = CBool (flt ([Fin 0.55, Fin 0.54999] ! i) (Fin 0.55)
        \<and> fgt ([Fin 0.8, Fin 0.8] ! i) (Fin 0.5) \<and> fgt ([Fin 0.95, Fin 0.95] ! i) (Fin 0.89))"
    by auto
  from c3 obtain a b where ab: "col = [a, b]"
    by (auto simp: length_Suc_conv numeral_2_eq_2)
  from c4 have "col ! 0 = CBool False" by (simp add: fgt_def)
  moreover from c4 have "col ! 1 = CBool True" by (simp add: fgt_def)
  ultimately have col: "col = [CBool False, CBool True]" by (simp add: ab)
  have p: "pass_func_qc example_functional = Inr [CBool False, CBool True]"
    using pass_func_qc_nums [OF h1 h2 h3] by (simp add: series_mul_def)
  have r: "\<exists>m. snd (quality_accessments example_functional example_anatomical) = Inr m"
    by (simp add: quality_accessments_def p)
       (simp add: combine_qc_def example_functional_def example_anatomical_def set_column_def
        subject_of_def py_split_def loc_def get_column_def concat_columns_def anat_qc_frame_def
        int_of_sum_def)
  from c1 c2 col r show ?thesis by auto
qed

lemma loc_error: "loc f row col = Inl e \<Longrightarrow> e = KeyError"
  by (auto simp: loc_def get_column_def split: option.splits sum.splits list.splits)

lemma loc_absent: "row \<notin> set (index f) \<Longrightarrow> loc f row col = Inl KeyError"
proof -
  assume "row \<notin> set (index f)"
  then have "filter (\<lambda>p. fst p = row) (zip (index f) c) = []" for c :: "cell list"
    by (auto simp: filter_empty_conv dest: set_zip_leftD)
  then show ?thesis
    by (simp add: loc_def get_column_def split: option.splits)
qed

lemma pass_anat_qc_loop_absent:
  "ident \<in> set ids \<Longrightarrow> subject_of ident \<notin> set (index am) \<Longrightarrow>
   pass_anat_qc_loop am acc ids = Inl KeyError"
proof (induction ids arbitrary: acc)
  case Nil
  then show ?case by simp
next
  case (Cons a ids)
  then show ?case
    by (auto simp: loc_absent Let_def split: sum.splits dest: loc_error)
qed

text \<open>
  C6.  A row of the functional table whose subject is not a row label of the anatomical
  table: the call returns no table; and when the three comparisons before the loop go
  through, the error that it raises is the lookup error of the loop.
\<close>

theorem absent_subject_lookup_error:
  assumes "ident \<in> set (index fm)" and "subject_of ident \<notin> set (index am)"
  shows "(\<exists>e. snd (quality_accessments fm am) = Inl e)
     \<and> (\<forall>col. pass_func_qc fm = Inr col \<longrightarrow> snd (quality_accessments fm am) = Inl KeyError)"
proof -
  have "\<And>f. index f = index fm \<Longrightarrow> combine_qc f am = Inl KeyError"
    using assms by (simp add: combine_qc_def pass_anat_qc_loop_absent)
  then have "\<And>col. combine_qc (set_column fm ''pass_func_qc'' col) am = Inl KeyError"
    by (simp add: set_column_def)
  then show ?thesis
    by (auto simp: quality_accessments_def split: sum.splits)
qed

theorem absent_subject_lookup_error_witness:
  "''sub-02_task-rest'' \<in> set (index example_functional)
   \<and> subject_of ''sub-02_task-rest'' = ''02''
   \<and> ''02'' \<notin> set (index example_anatomical_01)
   \<and> pass_func_qc example_functional = Inr [CBool False, CBool True]
   \<and> snd (quality_accessments example_functional example_anatomical_01) = Inl KeyError"
proof -
  have h1: "''sub-02_task-rest'' \<in> set (index example_functional)"
    by (simp add: example_functional_def)
  have s: "subject_of ''sub-02_task-rest'' = ''02''"
    by (simp add: subject_of_def py_split_def)
  have h2: "subject_of ''sub-02_task-rest'' \<notin> set (index example_anatomical_01)"
    by (simp add: s example_anatomical_01_def)
  have p: "pass_func_qc example_functional = Inr [CBool False, CBool True]"
    by (simp add: pass_func_qc_def example_functional_def get_column_def standard_def
        qulaity_control_standards_def series_lt_def series_gt_def series_mul_def fgt_def)
  from absent_subject_lookup_error [OF h1 h2] h1 h2 s p show ?thesis by simp
qed

lemma filter_dict_update:
  "filter (\<lambda>p. fst p \<noteq> k) (dict_update k v ps) = filter (\<lambda>p. fst p \<noteq> k) ps"
  by (induction ps) auto

text \<open>
  C3, as the code has it.  \<^verbatim>\<open>quality_accessments\<close> changes the frame passed as
  \<^verbatim>\<open>functional_metrics\<close> in place: when the three comparisons go through it assigns the
  column \<^verbatim>\<open>pass_func_qc\<close> there, and it leaves the row labels, the name of the index
  and every other column as they were, in their order; when a comparison fails the frame
  is untouched.  \<^verbatim>\<open>parse_scan_information\<close> changes the frame passed to it in one way
  only: the name of its index becomes \<^verbatim>\<open>identifier\<close>.
\<close>

theorem inputs_changed_in_place:
  "index (fst (quality_accessments fm am)) = index fm
   \<and> index_name (fst (quality_accessments fm am)) = index_name fm
   \<and> filter (\<lambda>p. fst p \<noteq> ''pass_func_qc'') (columns (fst (quality_accessments fm am)))
       = filter (\<lambda>p. fst p \<noteq> ''pass_func_qc'') (columns fm)
   \<and> (\<forall>col. pass_func_qc fm = Inr col \<longrightarrow>
         get_column (fst (quality_accessments fm am)) ''pass_func_qc'' = Inr col)
   \<and> (\<forall>e. pass_func_qc fm = Inl e \<longrightarrow> fst (quality_accessments fm am) = fm)
   \<and> fst (parse_scan_information metrics) = metrics\<lparr>index_name := Some ''identifier''\<rparr>"
  by (auto simp: quality_accessments_def parse_scan_information_def Let_def set_column_def
      filter_dict_update get_column_def map_of_dict_update split: sum.splits)

theorem inputs_changed_in_place_witness:
  "fst (quality_accessments example_functional example_anatomical)
     = example_functional\<lparr>columns := columns example_functional
                             @ [(''pass_func_qc'', [CBool False, CBool True])]\<rparr>
   \<and> fst (quality_accessments example_anatomical example_functional) = example_anatomical
   \<and> fst (parse_scan_information example_functional)
     = example_functional\<lparr>index_name := Some ''identifier''\<rparr>"
proof -
  have p: "pass_func_qc example_functional = Inr [CBool False, CBool True]"
    by (simp add: pass_func_qc_def example_functional_def get_column_def standard_def
        qulaity_control_standards_def series_lt_def series_gt_def series_mul_def fgt_def)
  have q: "pass_func_qc example_anatomical = Inl KeyError"
    by (simp add: pass_func_qc_def example_anatomical_def get_column_def)
  have a: "fst (quality_accessments example_functional example_anatomical)
     = example_functional\<lparr>columns := columns example_functional
                             @ [(''pass_func_qc'', [CBool False, CBool True])]\<rparr>"
    by (simp add: quality_accessments_def p Let_def set_column_def)
       (simp add: example_functional_def)
  from a p q
    inputs_changed_in_place [of example_functional example_anatomical example_functional]
    inputs_changed_in_place [of example_anatomical example_functional example_functional]
  show ?thesis by simp
qed

text \<open>
  The claim C3 as the specification states it fails: after either call the frame that
  was passed in differs from what it was.
\<close>

theorem inputs_are_mutated:
  "fst (quality_accessments example_functional example_anatomical) \<noteq> example_functional
   \<and> fst (parse_scan_information example_functional) \<noteq> example_functional"
  by (simp add: quality_accessments_def parse_scan_information_def
      pass_func_qc_def example_functional_def get_column_def standard_def
      qulaity_control_standards_def series_lt_def series_gt_def series_mul_def fgt_def
      set_column_def Let_def)

section \<open>Properties of the identifier parser\<close>

lemma split_from_nonempty: "split_from sep cur s \<noteq> []"
  by (induction sep cur s rule: split_from.induct) auto

lemma py_join_Cons: "xs \<noteq> [] \<Longrightarrow> py_join sep (x # xs) = x @ sep @ py_join sep xs"
  by (cases xs) simp_all

lemma py_join_split_from: "py_join sep (split_from sep cur s) = cur @ s"
proof (induction sep cur s rule: split_from.induct)
  case (1 sep cur)
  show ?case by simp
next
  case (2 sep cur c cs)
  show ?case
  proof (cases "sep \<noteq> [] \<and> prefix sep (c # cs)")
    case True
    then obtain r where r: "c # cs = sep @ r" by (auto simp: prefix_def)
    with True have d: "drop (length sep - 1) cs = r"
      by (cases sep) auto
    from True have s: "split_from sep cur (c # cs)
        = cur # split_from sep [] (drop (length sep - 1) cs)" by simp
    from True 2(1) have "py_join sep (split_from sep [] (drop (length sep - 1) cs))
        = drop (length sep - 1) cs" by simp
    with d have "py_join sep (split_from sep cur (c # cs)) = cur @ sep @ r"
      unfolding s by (simp add: py_join_Cons split_from_nonempty)
    with r show ?thesis by simp
  next
    case False
    with 2(2) show ?thesis by auto
  qed
qed

lemma py_join_py_split: "py_join sep (py_split sep s) = s"
  by (simp add: py_split_def py_join_split_from)

lemma py_replace_prefix:
  "old \<noteq> [] \<Longrightarrow> py_replace old new (old @ v) = new @ py_replace old new v"
  by (cases old) simp_all

lemma py_replace_absent: "\<not> sublist old v \<Longrightarrow> py_replace old new v = v"
proof (induction v)
  case Nil
  show ?case by simp
next
  case (Cons c cs)
  from Cons.prems have np: "\<not> prefix old (c # cs)"
    using prefix_imp_sublist by blast
  from Cons.prems have "\<not> sublist old cs"
    by (meson sublist_Cons_right)
  with Cons.IH np show ?case by simp
qed

lemma split_from_pieces:
  "x \<in> set (split_from [c] cur s) \<Longrightarrow> c \<notin> set cur \<Longrightarrow> c \<notin> set x"
  by (induction "[c]" cur s arbitrary: x rule: split_from.induct) (auto split: if_splits)

lemma py_split_pieces: "x \<in> set (py_split [c] s) \<Longrightarrow> c \<notin> set x"
  using split_from_pieces [of x c "[]" s] by (simp add: py_split_def)

lemma split_from_key:
  "c \<notin> set k \<Longrightarrow> split_from [c] cur (k @ c # v) = (cur @ k) # split_from [c] [] v"
  by (induction k arbitrary: cur) auto

lemma hd_py_split_key: "c \<notin> set k \<Longrightarrow> hd (py_split [c] (k @ c # v)) = k"
  by (simp add: py_split_def split_from_key)

lemma dict_update_fresh: "k \<notin> fst ` set ps \<Longrightarrow> dict_update k v ps = ps @ [(k, v)]"
  by (induction ps) auto

lemma dict_update_found:
  "k \<notin> fst ` set pre \<Longrightarrow> dict_update k v (pre @ (k, c) # rest) = pre @ (k, v) # rest"
  by (induction pre) auto

lemma map_of_found: "k \<notin> fst ` set pre \<Longrightarrow> map_of (pre @ (k, c) # rest) k = Some c"
  by (induction pre) auto

lemma assign_columns_fresh:
  "distinct (map fst kvs) \<Longrightarrow> fst ` set kvs \<inter> fst ` set (columns f) = {} \<Longrightarrow>
   fold (\<lambda>(k, c) g. set_column g k c) kvs f = f\<lparr>columns := columns f @ kvs\<rparr>"
proof (induction kvs arbitrary: f)
  case Nil
  show ?case by simp
next
  case (Cons kv kvs)
  obtain k c where kv: "kv = (k, c)" by (cases kv)
  from Cons.prems kv have fresh: "k \<notin> fst ` set (columns f)" by auto
  have step: "set_column f k c = f\<lparr>columns := columns f @ [(k, c)]\<rparr>"
    by (simp add: set_column_def dict_update_fresh [OF fresh])
  have "distinct (map fst kvs)" using Cons.prems by simp
  moreover have "fst ` set kvs \<inter> fst ` set (columns (set_column f k c)) = {}"
    using Cons.prems kv by (auto simp: step)
  ultimately have "fold (\<lambda>(k, c) g. set_column g k c) kvs (set_column f k c)
      = (set_column f k c)\<lparr>columns := columns (set_column f k c) @ kvs\<rparr>"
    by (rule Cons.IH)
  then show ?case by (simp add: kv step)
qed

lemma strip_loop_columns:
  "distinct (map fst pre @ hs) \<Longrightarrow> length cs = length hs \<Longrightarrow> columns f = pre @ zip hs cs \<Longrightarrow>
   strip_loop f hs =
     Inr (f\<lparr>columns := pre @ map (\<lambda>(h, c). (h, map (str_replace_cell (h @ ''-'') []) c)) (zip hs cs)\<rparr>)"
proof (induction hs arbitrary: pre cs f)
  case Nil
  then show ?case by simp
next
  case (Cons h hs)
  from Cons.prems(2) obtain c cs' where cs: "cs = c # cs'" by (cases cs) auto
  let ?c = "map (str_replace_cell (h @ ''-'') []) c"
  from Cons.prems(1) have fresh: "h \<notin> fst ` set pre" by auto
  have col: "columns f = pre @ (h, c) # zip hs cs'" using Cons.prems(3) cs by simp
  have "map_of (columns f) h = Some c"
    unfolding col by (rule map_of_found [OF fresh])
  then have g: "get_column f h = Inr c"
    by (simp add: get_column_def)
  have s: "set_column f h ?c = f\<lparr>columns := (pre @ [(h, ?c)]) @ zip hs cs'\<rparr>"
    by (simp add: set_column_def col dict_update_found [OF fresh])
  have "strip_loop (set_column f h ?c) hs =
      Inr ((set_column f h ?c)\<lparr>columns := (pre @ [(h, ?c)])
          @ map (\<lambda>(h, c). (h, map (str_replace_cell (h @ ''-'') []) c)) (zip hs cs')\<rparr>)"
  proof (rule Cons.IH)
    show "distinct (map fst (pre @ [(h, ?c)]) @ hs)" using Cons.prems(1) by auto
    show "length cs' = length hs" using Cons.prems(2) cs by simp
    show "columns (set_column f h ?c) = (pre @ [(h, ?c)]) @ zip hs cs'" by (simp add: s)
  qed
  then show ?case by (simp add: g cs s)
qed

lemma foldr_max_const: "xs \<noteq> [] \<Longrightarrow> \<forall>x\<in>set xs. x = n \<Longrightarrow> foldr max xs (0::nat) = n"
proof (induction xs)
  case Nil
  then show ?case by simp
next
  case (Cons x xs)
  then show ?case by (cases "xs = []") auto
qed

lemma zip_nth_conv:
  "length ys = length xs \<Longrightarrow> zip xs ys = map (\<lambda>j. (xs ! j, ys ! j)) [0..<length xs]"
  by (rule nth_equalityI) auto

lemma those_map_Some: "those (map (\<lambda>x. Some (g x)) xs) = Some (map g xs)"
  by (induction xs) simp_all

lemma map_of_first:
  "distinct (map fst xs) \<Longrightarrow> (k, v) \<in> set xs \<Longrightarrow> map_of (xs @ ys) k = Some v"
  by (simp add: map_add_Some_iff)

lemma parse_columns:
  assumes "index m = first # others" and "distinct keys" and "''identifier'' \<notin> set keys"
    and "headers_of first = keys" and "str_split_expand (index m) = E"
    and "length E = length keys"
  shows "snd (parse_scan_information m) =
     Inr \<lparr>index_name = Some ''identifier'', index = index m,
          columns = map (\<lambda>(h, c). (column_of_key h, map (str_replace_cell (h @ ''-'') []) c))
                      (zip keys E) @ columns m\<rparr>"
proof -
  let ?base = "\<lparr>index_name = Some ''identifier'', index = index m,
                columns = [(''identifier'', map CStr (index m))]\<rparr>"
  have fst_zip: "map fst (zip keys E) = keys"
    using assms(6) by (simp add: map_fst_zip)
  have a: "assign_columns ?base keys E = ?base\<lparr>columns := columns ?base @ zip keys E\<rparr>"
    unfolding assign_columns_def
  proof (rule assign_columns_fresh)
    show "distinct (map fst (zip keys E))" using assms(2) by (simp add: fst_zip)
    have "fst ` set (zip keys E) = set keys" using fst_zip by (metis set_map)
    then show "fst ` set (zip keys E) \<inter> fst ` set (columns ?base) = {}"
      using assms(3) by simp
  qed
  have "\<forall>p\<in>set (zip keys E). fst p \<noteq> ''identifier''"
    using assms(3) by (auto dest: set_zip_leftD)
  then have f: "filter (\<lambda>(n, c). n \<noteq> ''identifier'') (zip keys E) = zip keys E"
    by (auto intro!: filter_True)
  have d: "drop_column (assign_columns ?base keys E) ''identifier''
      = \<lparr>index_name = Some ''identifier'', index = index m, columns = zip keys E\<rparr>"
    by (simp add: a drop_column_def f)
  have s: "strip_loop \<lparr>index_name = Some ''identifier'', index = index m, columns = zip keys E\<rparr> keys
      = Inr \<lparr>index_name = Some ''identifier'', index = index m,
             columns = map (\<lambda>(h, c). (h, map (str_replace_cell (h @ ''-'') []) c)) (zip keys E)\<rparr>"
    using strip_loop_columns [of "[]" keys E
        "\<lparr>index_name = Some ''identifier'', index = index m, columns = zip keys E\<rparr>"]
      assms(2,6)
    by simp
  have P: "snd (parse_scan_information m) =
      (if length E \<noteq> length keys then Inl ValueError
       else case strip_loop (drop_column (assign_columns ?base keys E) ''identifier'') keys of
              Inl e \<Rightarrow> Inl e
            | Inr identifiers \<Rightarrow>
                concat_columns (rename_column identifiers ''sub'' ''participant_id'')
                  (m\<lparr>index_name := Some ''identifier''\<rparr>))"
    using assms(1,4,5) by (simp add: parse_scan_information_def Let_def)
  show ?thesis
    unfolding P d s using assms(6)
    by (simp add: concat_columns_def rename_column_def column_of_key_def case_prod_unfold)
qed

lemma str_split_expand_rows:
  assumes "rows \<noteq> []"
    and "map (py_split ''_'') ids = map (\<lambda>vals. map2 (\<lambda>k v. k @ ''-'' @ v) keys vals) rows"
    and "\<forall>vals\<in>set rows. length vals = length keys"
  shows "str_split_expand ids =
     map (\<lambda>j. map (\<lambda>vals. CStr (keys ! j @ ''-'' @ vals ! j)) rows) [0..<length keys]"
proof -
  let ?tok = "\<lambda>vals. map2 (\<lambda>k v. k @ ''-'' @ v) keys vals"
  have len: "\<forall>vals\<in>set rows. length (?tok vals) = length keys"
    using assms(3) by simp
  have w: "foldr max (map length (map ?tok rows)) 0 = length keys"
    using assms(1) len by (intro foldr_max_const) auto
  have "map (\<lambda>j. map (\<lambda>p. if j < length p then CStr (p ! j) else CNone) (map ?tok rows))
          [0..<length keys]
      = map (\<lambda>j. map (\<lambda>vals. CStr (keys ! j @ ''-'' @ vals ! j)) rows) [0..<length keys]"
    using assms(3) by (auto simp: comp_def)
  then show ?thesis
    unfolding str_split_expand_def Let_def assms(2) w .
qed

lemma strip_entity_column:
  assumes "j < length keys" and "\<forall>vals\<in>set rows. length vals = length keys"
    and "\<forall>vals\<in>set rows. \<forall>(k, v)\<in>set (zip keys vals). \<not> sublist (k @ ''-'') v"
  shows "map (str_replace_cell (keys ! j @ ''-'') [])
           (map (\<lambda>vals. CStr (keys ! j @ ''-'' @ vals ! j)) rows)
         = map (\<lambda>vals. CStr (vals ! j)) rows"
proof -
  have "py_replace (keys ! j @ ''-'') [] (keys ! j @ ''-'' @ vals ! j) = vals ! j"
    if "vals \<in> set rows" for vals
  proof -
    from that assms(1,2) have "(keys ! j, vals ! j) \<in> set (zip keys vals)"
      by (auto simp: in_set_zip)
    with that assms(3) have "\<not> sublist (keys ! j @ ''-'') (vals ! j)" by blast
    then have "py_replace (keys ! j @ ''-'') [] (vals ! j) = vals ! j"
      by (rule py_replace_absent)
    moreover have "py_replace (keys ! j @ ''-'') [] ((keys ! j @ ''-'') @ vals ! j)
        = [] @ py_replace (keys ! j @ ''-'') [] (vals ! j)"
      by (rule py_replace_prefix) simp
    ultimately show ?thesis by simp
  qed
  then show ?thesis by simp
qed

lemma parse_example:
  "snd (parse_scan_information \<lparr>index_name = nm, index = [''sub-01_task-rest''], columns = cols\<rparr>)
     = Inr \<lparr>index_name = Some ''identifier'', index = [''sub-01_task-rest''],
            columns = (''participant_id'', [CStr ''01'']) # (''task'', [CStr ''rest'']) # cols\<rparr>"
  by (simp add: parse_scan_information_def headers_of_def py_split_def str_split_expand_def
      assign_columns_def set_column_def drop_column_def get_column_def rename_column_def
      concat_columns_def upt_rec)

text \<open>
  Where the parser does what it sets out to do.  Parsing \<^verbatim>\<open>sub-01_task-rest\<close> gives
  the columns \<^verbatim>\<open>participant_id\<close> = 01 and \<^verbatim>\<open>task\<close> = rest in front of the columns
  of the table.  And for a table in which every identifier splits at the underscores into
  tokens \<^verbatim>\<open>key-value\<close> with the keys of the first row, these being distinct and none
  of them \<^verbatim>\<open>identifier\<close>, and in which no value contains its own \<^verbatim>\<open>key-\<close> again, the
  values come out whole and putting them together again gives each identifier.
\<close>

lemma parse_round_trip:
  assumes ne: "index m \<noteq> []"
    and keys: "keys = headers_of (hd (index m))"
    and dist: "distinct keys" and nid: "''identifier'' \<notin> set keys"
    and rows: "map (py_split ''_'') (index m)
                 = map (\<lambda>vals. map2 (\<lambda>k v. k @ ''-'' @ v) keys vals) rows"
    and lens: "\<forall>vals\<in>set rows. length vals = length keys"
    and absent: "\<forall>vals\<in>set rows. \<forall>(k, v)\<in>set (zip keys vals). \<not> sublist (k @ ''-'') v"
  shows "snd (parse_scan_information
              \<lparr>index_name = nm, index = [''sub-01_task-rest''], columns = cols\<rparr>)
           = Inr \<lparr>index_name = Some ''identifier'', index = [''sub-01_task-rest''],
                  columns = (''participant_id'', [CStr ''01'']) # (''task'', [CStr ''rest'']) # cols\<rparr>
    \<and> (\<exists>parsed. snd (parse_scan_information m) = Inr parsed
      \<and> index parsed = index m
      \<and> columns parsed =
          map (\<lambda>j. (column_of_key (keys ! j), map (\<lambda>vals. CStr (vals ! j)) rows))
            [0..<length keys] @ columns m
      \<and> (\<forall>i<length (index m). rejoin parsed keys i = Some (index m ! i)))"
proof -
  let ?n = "length keys"
  let ?E = "map (\<lambda>j. map (\<lambda>vals. CStr (keys ! j @ ''-'' @ vals ! j)) rows) [0..<?n]"
  let ?ent = "map (\<lambda>j. (column_of_key (keys ! j), map (\<lambda>vals. CStr (vals ! j)) rows)) [0..<?n]"
  let ?parsed = "\<lparr>index_name = Some ''identifier'', index = index m, columns = ?ent @ columns m\<rparr>"
  from ne obtain first others where ids: "index m = first # others"
    by (cases "index m") auto
  have lr: "length rows = length (index m)"
    using rows by (metis length_map)
  with ne have rne: "rows \<noteq> []" by auto
  have E: "str_split_expand (index m) = ?E"
    using rne rows lens by (rule str_split_expand_rows)
  have hk: "headers_of first = keys" using keys ids by simp
  have "snd (parse_scan_information m) =
     Inr \<lparr>index_name = Some ''identifier'', index = index m,
          columns = map (\<lambda>(h, c). (column_of_key h, map (str_replace_cell (h @ ''-'') []) c))
                      (zip keys ?E) @ columns m\<rparr>"
    using ids dist nid hk E by (rule parse_columns) simp
  moreover have "map (\<lambda>(h, c). (column_of_key h, map (str_replace_cell (h @ ''-'') []) c))
      (zip keys ?E) = ?ent"
  proof -
    have "zip keys ?E = map (\<lambda>j. (keys ! j, ?E ! j)) [0..<?n]"
      by (rule zip_nth_conv) simp
    then show ?thesis
      using strip_entity_column [OF _ lens absent] by simp
  qed
  ultimately have res: "snd (parse_scan_information m) = Inr ?parsed" by simp
  have tok_in: "keys ! j @ ''-'' @ hd rows ! j \<in> set (py_split ''_'' first)" if "j < ?n" for j
  proof -
    from rne have h: "hd rows \<in> set rows" by simp
    from rows ids rne have "py_split ''_'' first = map2 (\<lambda>k v. k @ ''-'' @ v) keys (hd rows)"
      by (cases rows) auto
    moreover from h lens have l: "length (hd rows) = ?n" by blast
    moreover from that l have "(keys ! j, hd rows ! j) \<in> set (zip keys (hd rows))"
      by (auto simp: in_set_zip)
    ultimately show ?thesis by force
  qed
  have no_us: "CHR ''_'' \<notin> set k" if "k \<in> set keys" for k
  proof -
    from that obtain j where j: "j < ?n" "k = keys ! j" by (auto simp: in_set_conv_nth)
    from py_split_pieces [OF tok_in [OF j(1)]] j(2) show ?thesis by simp
  qed
  have "inj_on column_of_key (set keys)"
  proof (rule inj_onI)
    fix a b assume "a \<in> set keys" "b \<in> set keys" "column_of_key a = column_of_key b"
    with no_us [of a] no_us [of b] show "a = b"
      by (auto simp: column_of_key_def split: if_splits)
  qed
  with dist have dcol: "distinct (map column_of_key keys)"
    by (simp add: distinct_map)
  have "map fst ?ent = map column_of_key (map (\<lambda>j. keys ! j) [0..<?n])"
    by (simp add: comp_def)
  then have dent: "distinct (map fst ?ent)"
    using dcol by (simp add: map_nth)
  have look: "map_of (?ent @ columns m) (column_of_key (keys ! j))
      = Some (map (\<lambda>vals. CStr (vals ! j)) rows)" if "j < ?n" for j
  proof -
    have "(column_of_key (keys ! j), map (\<lambda>vals. CStr (vals ! j)) rows) \<in> set ?ent"
      using that by auto
    with dent show ?thesis by (rule map_of_first)
  qed
  have rt: "rejoin ?parsed keys i = Some (index m ! i)" if "i < length (index m)" for i
  proof -
    from that lr have ir: "i < length rows" by simp
    then have rin: "rows ! i \<in> set rows" by simp
    let ?F = "\<lambda>k. case map_of (?ent @ columns m) (column_of_key k) of None \<Rightarrow> None
              | Some c \<Rightarrow> if i < length c
                  then map_option (\<lambda>v. k @ ''-'' @ v) (cell_text (c ! i)) else None"
    have "map ?F keys = map ?F (map (\<lambda>j. keys ! j) [0..<?n])"
      by (simp add: map_nth)
    also have "\<dots> = map (\<lambda>j. Some (keys ! j @ ''-'' @ rows ! i ! j)) [0..<?n]"
      using ir by (simp add: look cell_text_def del: map_of_append)
    finally have "those (map ?F keys) = Some (map (\<lambda>j. keys ! j @ ''-'' @ rows ! i ! j) [0..<?n])"
      by (simp add: those_map_Some)
    moreover have "map (\<lambda>j. keys ! j @ ''-'' @ rows ! i ! j) [0..<?n] = py_split ''_'' (index m ! i)"
    proof -
      have "py_split ''_'' (index m ! i) = map2 (\<lambda>k v. k @ ''-'' @ v) keys (rows ! i)"
        using rows that ir by (metis (no_types, lifting) nth_map)
      also have "zip keys (rows ! i) = map (\<lambda>j. (keys ! j, rows ! i ! j)) [0..<?n]"
        using lens rin by (intro zip_nth_conv) simp
      finally show ?thesis by (simp add: comp_def)
    qed
    ultimately show ?thesis
      unfolding rejoin_def by (simp add: py_join_py_split del: map_of_append)
  qed
  from res rt have "\<exists>parsed. snd (parse_scan_information m) = Inr parsed
      \<and> index parsed = index m
      \<and> columns parsed = ?ent @ columns m
      \<and> (\<forall>i<length (index m). rejoin parsed keys i = Some (index m ! i))"
    by auto
  with parse_example show ?thesis by blast
qed

lemma parse_round_trip_example:
  "\<exists>parsed. snd (parse_scan_information example_functional) = Inr parsed
     \<and> columns parsed = (''participant_id'', [CStr ''01'', CStr ''02''])
          # (''task'', [CStr ''rest'', CStr ''rest'']) # columns example_functional
     \<and> rejoin parsed [''sub'', ''task''] 0 = Some ''sub-01_task-rest''
     \<and> rejoin parsed [''sub'', ''task''] 1 = Some ''sub-02_task-rest''"
proof -
  let ?rows = "[[''01'', ''rest''], [''02'', ''rest'']]"
  have ix: "index example_functional = [''sub-01_task-rest'', ''sub-02_task-rest'']"
    by (simp add: example_functional_def)
  have h1: "index example_functional \<noteq> []" by (simp add: ix)
  have h2: "[''sub'', ''task''] = headers_of (hd (index example_functional))"
    by (simp add: ix headers_of_def py_split_def)
  have h3: "distinct [''sub'', ''task'']" by simp
  have h4: "''identifier'' \<notin> set [''sub'', ''task'']" by simp
  have h5: "map (py_split ''_'') (index example_functional)
      = map (\<lambda>vals. map2 (\<lambda>k v. k @ ''-'' @ v) [''sub'', ''task''] vals) ?rows"
    by (simp add: ix py_split_def)
  have h6: "\<forall>vals\<in>set ?rows. length vals = length [''sub'', ''task'']" by simp
  have h7: "\<forall>vals\<in>set ?rows. \<forall>(k, v)\<in>set (zip [''sub'', ''task''] vals). \<not> sublist (k @ ''-'') v"
    by (simp add: sublist_Cons_right)
  from parse_round_trip [OF h1 h2 h3 h4 h5 h6 h7]
  have "\<exists>parsed. snd (parse_scan_information example_functional) = Inr parsed
      \<and> index parsed = index example_functional
      \<and> columns parsed =
          map (\<lambda>j. (column_of_key ([''sub'', ''task''] ! j), map (\<lambda>vals. CStr (vals ! j)) ?rows))
            [0..<length [''sub'', ''task'']] @ columns example_functional
      \<and> (\<forall>i<length (index example_functional). rejoin parsed [''sub'', ''task''] i
          = Some (index example_functional ! i))"
    by (rule conjunct2)
  then obtain parsed where p: "snd (parse_scan_information example_functional) = Inr parsed"
    and c: "columns parsed =
          map (\<lambda>j. (column_of_key ([''sub'', ''task''] ! j), map (\<lambda>vals. CStr (vals ! j)) ?rows))
            [0..<length [''sub'', ''task'']] @ columns example_functional"
    and r: "\<forall>i<length (index example_functional). rejoin parsed [''sub'', ''task''] i
          = Some (index example_functional ! i)"
    by blast
  from c have c': "columns parsed = (''participant_id'', [CStr ''01'', CStr ''02''])
          # (''task'', [CStr ''rest'', CStr ''rest'']) # columns example_functional"
    by (simp add: upt_rec column_of_key_def)
  from r have "rejoin parsed [''sub'', ''task''] 0 = Some ''sub-01_task-rest''"
    and "rejoin parsed [''sub'', ''task''] 1 = Some ''sub-02_task-rest''"
    by (simp_all add: ix)
  with p c' show ?thesis by blast
qed

text \<open>
  C8.  The identifier \<^verbatim>\<open>sub-01_task-multi-task-2\<close> has the tokens of a first row,
  with the keys \<^verbatim>\<open>sub\<close> and \<^verbatim>\<open>task\<close>.  Stripping the prefix \<^verbatim>\<open>task-\<close> from its
  second token would leave \<^verbatim>\<open>multi-task-2\<close>, and rejoining would give the identifier
  back, as the claim says.  The code replaces every \<^verbatim>\<open>task-\<close> in the token instead: the
  parsed value is \<^verbatim>\<open>multi-2\<close>, and rejoining gives \<^verbatim>\<open>sub-01_task-multi-2\<close>, which is
  not the identifier.
\<close>

theorem hyphen_value_not_restored:
  "headers_of ''sub-01_task-multi-task-2'' = [''sub'', ''task'']
   \<and> snd (parse_scan_information example_hyphen) = Inr example_hyphen_parsed
   \<and> rejoin example_hyphen_parsed [''sub'', ''task''] 0 = Some ''sub-01_task-multi-2''
   \<and> rejoin example_hyphen_parsed [''sub'', ''task''] 0 \<noteq> Some (index example_hyphen ! 0)"
  by (simp add: parse_scan_information_def headers_of_def py_split_def str_split_expand_def
      assign_columns_def set_column_def drop_column_def get_column_def rename_column_def
      concat_columns_def upt_rec example_hyphen_def example_hyphen_parsed_def
      rejoin_def column_of_key_def cell_text_def)


end
